theory Spec2Isabelle
  imports Complex_Main "HOL-Library.Sublist"
begin

section \<open>Data model (app/models/schemas.py)\<close>

text \<open>
  The Pydantic models are records. Python floats are modelled as exact reals (rounding is
  not modelled), Python's unbounded ints as \<open>int\<close>, list indices as \<open>nat\<close>, and strings
  as ASCII character lists. Field names are those of the source.
\<close>

datatype RequirementCategory =
  FEATURES | INTEGRATION | LICENSING | ROI | SUPPORT | TIMELINE | PRESENTATION
  | EVALUATION | IMPLEMENTATION | USERS | CAPABILITIES

text \<open>The \<open>.value\<close> of a member of the string enum.\<close>

fun category_value :: "RequirementCategory \<Rightarrow> string" where
  "category_value FEATURES = ''features''"
| "category_value INTEGRATION = ''integration''"
| "category_value LICENSING = ''licensing''"
| "category_value ROI = ''roi''"
| "category_value SUPPORT = ''support''"
| "category_value TIMELINE = ''timeline''"
| "category_value PRESENTATION = ''presentation''"
| "category_value EVALUATION = ''evaluation''"
| "category_value IMPLEMENTATION = ''implementation''"
| "category_value USERS = ''users''"
| "category_value CAPABILITIES = ''capabilities''"

record Requirement =
  "id" :: string
  "text" :: string
  category :: RequirementCategory
  priority :: string
  business_impact :: string
  evaluation_weight :: real
  source_section :: string

record ContactInfo =
  contact_name :: string
  contact_title :: string
  email :: string
  phone :: string
  contact_organization :: string

record PresentationDetails =
  "date" :: string
  location :: string
  duration :: string
  format :: string
  attendees :: "string list"
  topics_to_cover :: "string list"

record TimelineItem =
  milestone :: string
  milestone_date :: string
  status :: string

record EvaluationCriteria =
  criterion :: string
  weight :: real
  description :: string
  scoring_method :: string

record RFPMeta =
  title :: string
  version :: string
  deadline_iso :: string
  purpose :: string
  organization :: string
  project_description :: string
  budget_indication :: string
  contract_duration :: string
  presentation_details :: "PresentationDetails option"
  timeline :: "TimelineItem list"
  evaluation_criteria :: "EvaluationCriteria list"
  contact_info :: "ContactInfo list"
  submission_requirements :: "string list"
  special_conditions :: "string list"

record CompanyProfile =
  name :: string
  overview :: string
  hq :: string
  sites :: "string list"
  industry :: string
  company_size :: string
  leadership :: "string list"
  financial_info :: string
  certifications :: "string list"
  technology_stack :: "string list"
  service_areas :: "string list"
  market_position :: string
  recent_projects :: "string list"
  partnerships :: "string list"
  additional_info :: string

record Evidence =
  source_url :: string
  snippet :: string
  confidence :: real
  tags :: "string list"

record MappedInsight =
  requirement_id :: string
  rationale :: string
  supporting_evidence_idx :: "nat list"
  confidence :: real

record ResearchFindings =
  rfp_meta :: RFPMeta
  extracted_requirements :: "Requirement list"
  company_profile :: CompanyProfile
  evidence :: "Evidence list"
  mapped_insights :: "MappedInsight list"

record Gap =
  gap_requirement_id :: string
  why :: string
  suggested_queries :: "string list"

record ValidationReport =
  coverage_score :: real
  rfp_validation_score :: real
  extraction_accuracy :: real
  gaps :: "Gap list"
  quality_notes :: "string list"
  rfp_validation_notes :: "string list"
  is_sufficient :: bool

record BidSection =
  section_title :: string
  markdown :: string

record BidOutline =
  sections :: "BidSection list"


section \<open>Python string operations\<close>

text \<open>
  The operations of \<open>str\<close> that the modelled code uses, on ASCII text: \<open>lower()\<close>,
  \<open>split()\<close> without arguments (words between runs of whitespace), the substring test
  \<open>needle in s\<close>, and \<open>strip()\<close>.
\<close>

definition lower_char :: "char \<Rightarrow> char" where
  "lower_char c =
     (case map_of (zip ''ABCDEFGHIJKLMNOPQRSTUVWXYZ'' ''abcdefghijklmnopqrstuvwxyz'') c of
        Some l \<Rightarrow> l
      | None \<Rightarrow> c)"

definition upper_char :: "char \<Rightarrow> char" where
  "upper_char c =
     (case map_of (zip ''abcdefghijklmnopqrstuvwxyz'' ''ABCDEFGHIJKLMNOPQRSTUVWXYZ'') c of
        Some u \<Rightarrow> u
      | None \<Rightarrow> c)"

definition str_lower :: "string \<Rightarrow> string" where
  "str_lower s = map lower_char s"

definition isspace :: "char \<Rightarrow> bool" where
  "isspace c = (c \<in> set [CHR '' '', CHR 0x09, CHR 0x0A, CHR 0x0B, CHR 0x0C, CHR 0x0D,
                          CHR 0x1C, CHR 0x1D, CHR 0x1E, CHR 0x1F])"

fun split_from :: "string \<Rightarrow> string \<Rightarrow> string list" where
  "split_from word [] = (if word = [] then [] else [word])"
| "split_from word (c # cs) =
     (if isspace c then (if word = [] then split_from [] cs else word # split_from [] cs)
      else split_from (word @ [c]) cs)"

definition str_split :: "string \<Rightarrow> string list" where
  "str_split s = split_from [] s"

fun str_in :: "string \<Rightarrow> string \<Rightarrow> bool" where
  "str_in needle [] = (needle = [])"
| "str_in needle (c # cs) = (prefix needle (c # cs) \<or> str_in needle cs)"

definition str_strip :: "string \<Rightarrow> string" where
  "str_strip s = rev (dropWhile isspace (rev (dropWhile isspace s)))"

lemma str_in_sublist: "str_in needle s = sublist needle s"
  by (induction s) (auto simp: sublist_Cons_right)

text \<open>
  The exceptions of the modelled code: Pydantic's \<open>ValidationError\<close> (a \<open>ValueError\<close>)
  with the offending field, \<open>json.JSONDecodeError\<close>, \<open>KeyError\<close>, an exception raised by
  the completion service, and any other exception (these two carry \<open>str(e)\<close>), and
  LangGraph's \<open>GraphRecursionError\<close>.
\<close>

datatype error =
  ValidationError string | JSONDecodeError | KeyError | ServiceError string | OtherError string
  | GraphRecursionError


section \<open>The workflow (app/orchestrator/workflow.py)\<close>

text \<open>
  \<open>WorkflowState\<close> is the TypedDict of the source. The three dictionary-valued entries
  hold either the empty dictionary \<open>{}\<close> of the initial state, which is falsy
  (\<open>None\<close> here), or the \<open>model_dump()\<close> of a Pydantic model, which has all the model's
  keys and is truthy (\<open>Some\<close> here).
\<close>

record WorkflowState =
  run_id :: string
  rfp_path :: string
  company_name :: string
  max_iterations :: int
  current_iteration :: int
  research_findings :: "ResearchFindings option"
  validation_report :: "ValidationReport option"
  bid_outline :: "BidOutline option"
  bid_research_package_path :: string
  unified_bid_document_path :: string
  comprehensive_result_path :: string
  is_complete :: bool
  errors :: "string list"

text \<open>
  The collaborators called by the nodes are parameters. Each returns \<open>Inr\<close> its result or
  \<open>Inl\<close> the message \<open>str(e)\<close> of the exception it raised. They are given the state they
  are called in, so that a collaborator may answer differently in every iteration.
\<close>

record stages =
  research_agent_process ::
    "WorkflowState \<Rightarrow> string list option \<Rightarrow> string + ResearchFindings"
  validator_agent_process ::
    "WorkflowState \<Rightarrow> ResearchFindings \<Rightarrow> string + ValidationReport"
  writer_agent_process ::
    "WorkflowState \<Rightarrow> ResearchFindings \<Rightarrow> string + BidOutline"
  save_bid_research_package ::
    "WorkflowState \<Rightarrow> ResearchFindings \<Rightarrow> ValidationReport \<Rightarrow> BidOutline option
      \<Rightarrow> string + string"
  generate_unified_bid_document ::
    "WorkflowState \<Rightarrow> ResearchFindings \<Rightarrow> ValidationReport \<Rightarrow> BidOutline option
      \<Rightarrow> string + string"
  generate_comprehensive_result ::
    "WorkflowState \<Rightarrow> ResearchFindings \<Rightarrow> ValidationReport \<Rightarrow> BidOutline option
      \<Rightarrow> string + string"

text \<open>
  The refinement context of \<open>_research_node\<close>: on a retry with a validation report, the
  suggested queries of all its gaps, in order; otherwise the empty context.
\<close>

definition refinement_context :: "WorkflowState \<Rightarrow> string list option" where
  "refinement_context s =
     (if current_iteration s > 0 then
        (case validation_report s of
           None \<Rightarrow> None
         | Some validation \<Rightarrow> Some (concat (map suggested_queries (gaps validation))))
      else None)"

definition research_node :: "stages \<Rightarrow> WorkflowState \<Rightarrow> WorkflowState" where
  "research_node A s =
     (case research_agent_process A s (refinement_context s) of
        Inr findings \<Rightarrow> s\<lparr>research_findings := Some findings\<rparr>
      | Inl e \<Rightarrow> s\<lparr>errors := errors s @ [''Research error: '' @ e], is_complete := True\<rparr>)"

definition validate_node :: "stages \<Rightarrow> WorkflowState \<Rightarrow> WorkflowState" where
  "validate_node A s =
     (case research_findings s of
        None \<Rightarrow> s\<lparr>errors := errors s @ [''No research findings to validate''],
                  is_complete := True\<rparr>
      | Some findings \<Rightarrow>
          (case validator_agent_process A s findings of
             Inr report \<Rightarrow> s\<lparr>validation_report := Some report\<rparr>
           | Inl e \<Rightarrow> s\<lparr>errors := errors s @ [''Validation error: '' @ e],
                         is_complete := True\<rparr>))"

definition write_node :: "stages \<Rightarrow> WorkflowState \<Rightarrow> WorkflowState" where
  "write_node A s =
     (case research_findings s of
        None \<Rightarrow> s\<lparr>errors := errors s @ [''No research findings for writing''],
                  is_complete := True\<rparr>
      | Some findings \<Rightarrow>
          (case writer_agent_process A s findings of
             Inr outline \<Rightarrow> s\<lparr>bid_outline := Some outline, is_complete := True\<rparr>
           | Inl e \<Rightarrow> s\<lparr>errors := errors s @ [''Writing error: '' @ e],
                         is_complete := True\<rparr>))"

definition refine_node :: "WorkflowState \<Rightarrow> WorkflowState" where
  "refine_node s = s\<lparr>current_iteration := current_iteration s + 1\<rparr>"

definition save_research_node :: "stages \<Rightarrow> WorkflowState \<Rightarrow> WorkflowState" where
  "save_research_node A s =
     (case (research_findings s, validation_report s) of
        (Some findings, Some report) \<Rightarrow>
          (case save_bid_research_package A s findings report (bid_outline s) of
             Inr package_file \<Rightarrow> s\<lparr>bid_research_package_path := package_file\<rparr>
           | Inl e \<Rightarrow> s\<lparr>errors := errors s @ [''Research package saving error: '' @ e]\<rparr>)
      | _ \<Rightarrow> s\<lparr>errors := errors s
                  @ [''Missing research findings or validation report for saving'']\<rparr>)"

definition generate_unified_node :: "stages \<Rightarrow> WorkflowState \<Rightarrow> WorkflowState" where
  "generate_unified_node A s =
     (case (research_findings s, validation_report s) of
        (Some findings, Some report) \<Rightarrow>
          (case generate_unified_bid_document A s findings report (bid_outline s) of
             Inr unified_doc_path \<Rightarrow> s\<lparr>unified_bid_document_path := unified_doc_path\<rparr>
           | Inl e \<Rightarrow> s\<lparr>errors := errors s
                         @ [''Unified document generation error: '' @ e]\<rparr>)
      | _ \<Rightarrow> s\<lparr>errors := errors s
           @ [''Missing research findings or validation report for unified document generation'']\<rparr>)"

definition generate_comprehensive_node :: "stages \<Rightarrow> WorkflowState \<Rightarrow> WorkflowState" where
  "generate_comprehensive_node A s =
     (case (research_findings s, validation_report s) of
        (Some findings, Some report) \<Rightarrow>
          (case generate_comprehensive_result A s findings report (bid_outline s) of
             Inr result_file_path \<Rightarrow> s\<lparr>comprehensive_result_path := result_file_path\<rparr>
           | Inl e \<Rightarrow> s\<lparr>errors := errors s
                         @ [''Comprehensive result generation error: '' @ e]\<rparr>)
      | _ \<Rightarrow> s\<lparr>errors := errors s
           @ [''Missing research findings or validation report for comprehensive result generation'']\<rparr>)"

text \<open>\<open>_should_refine\<close>: the checks in the order of the source, returning its strings.\<close>

definition should_refine :: "WorkflowState \<Rightarrow> string" where
  "should_refine s =
     (if errors s \<noteq> [] then ''end''
      else if current_iteration s \<ge> max_iterations s then ''write''
      else (case validation_report s of
              None \<Rightarrow> ''end''
            | Some validation \<Rightarrow> if is_sufficient validation then ''write'' else ''refine''))"

text \<open>
  The graph of \<open>_build_workflow\<close>: its seven nodes and the terminal \<open>END\<close>, the
  unconditional edges, and the conditional edge after \<open>validate\<close> with its path map.
\<close>

datatype node =
  Research | Validate | Write | Refine | Save_research | Generate_unified
  | Generate_comprehensive | END

definition path_map :: "string \<Rightarrow> node option" where
  "path_map = map_of [(''refine'', Refine), (''write'', Write), (''end'', END)]"

fun exec_node :: "stages \<Rightarrow> node \<Rightarrow> WorkflowState \<Rightarrow> WorkflowState" where
  "exec_node A Research s = research_node A s"
| "exec_node A Validate s = validate_node A s"
| "exec_node A Write s = write_node A s"
| "exec_node A Refine s = refine_node s"
| "exec_node A Save_research s = save_research_node A s"
| "exec_node A Generate_unified s = generate_unified_node A s"
| "exec_node A Generate_comprehensive s = generate_comprehensive_node A s"
| "exec_node A END s = s"

text \<open>The node that follows \<open>n\<close>, given the state that \<open>n\<close> returned.\<close>

fun next_node :: "node \<Rightarrow> WorkflowState \<Rightarrow> node" where
  "next_node Research s = Validate"
| "next_node Validate s = (case path_map (should_refine s) of Some n \<Rightarrow> n | None \<Rightarrow> END)"
| "next_node Refine s = Research"
| "next_node Write s = Save_research"
| "next_node Save_research s = Generate_unified"
| "next_node Generate_unified s = Generate_comprehensive"
| "next_node Generate_comprehensive s = END"
| "next_node END s = END"

definition budget :: "WorkflowState \<Rightarrow> nat" where
  "budget s = nat (max_iterations s - current_iteration s)"

lemma research_node_counters:
  "max_iterations (research_node A s) = max_iterations s"
  "current_iteration (research_node A s) = current_iteration s"
  by (simp_all add: research_node_def split: sum.splits)

lemma validate_node_counters:
  "max_iterations (validate_node A s) = max_iterations s"
  "current_iteration (validate_node A s) = current_iteration s"
  by (simp_all add: validate_node_def split: sum.splits option.splits)

lemma should_refine_cases:
  "should_refine s = ''end'' \<or> should_refine s = ''write'' \<or> should_refine s = ''refine''"
  by (simp add: should_refine_def split: option.splits)

lemma should_refine_refine_budget:
  "should_refine s = ''refine'' \<Longrightarrow> current_iteration s < max_iterations s"
  by (simp add: should_refine_def split: if_splits option.splits)

lemma next_node_Validate_cases:
  "next_node Validate s = Refine \<and> current_iteration s < max_iterations s
   \<or> next_node Validate s = Write \<or> next_node Validate s = END"
  using should_refine_cases [of s] should_refine_refine_budget [of s]
  by (auto simp: path_map_def)

lemma next_node_Validate:
  "next_node Validate s =
     (if errors s \<noteq> [] then END
      else if current_iteration s \<ge> max_iterations s then Write
      else if validation_report s = None then END
      else if is_sufficient (the (validation_report s)) then Write
      else Refine)"
  by (simp add: should_refine_def path_map_def split: option.splits)

declare next_node.simps(2) [simp del]

text \<open>
  \<open>workflow.invoke\<close>. LangGraph executes one node in each step, follows the edge, and stops
  at \<open>END\<close>; when the graph has not come to \<open>END\<close> within its recursion limit it raises
  \<open>GraphRecursionError\<close> and returns no state. \<open>invoke_from\<close> takes the number of steps
  that are left; its result is the list of the nodes executed, in order, and the final
  state. \<open>_build_workflow\<close> compiles the graph and \<open>run\<close> invokes it without a
  configuration, so the limit is the library's default of 25 steps.
\<close>

primrec invoke_from ::
  "nat \<Rightarrow> stages \<Rightarrow> node \<Rightarrow> WorkflowState \<Rightarrow> error + node list \<times> WorkflowState" where
  "invoke_from 0 A n s = (if n = END then Inr ([], s) else Inl GraphRecursionError)"
| "invoke_from (Suc steps) A n s =
     (if n = END then Inr ([], s)
      else (let s' = exec_node A n s in
            case invoke_from steps A (next_node n s') s' of
              Inl e \<Rightarrow> Inl e
            | Inr (trace, final) \<Rightarrow> Inr (n # trace, final)))"

definition recursion_limit :: nat where
  "recursion_limit = 25"

text \<open>\<open>run\<close>: the initial state, then the graph from its entry point.\<close>

definition initial_state :: "string \<Rightarrow> string \<Rightarrow> string \<Rightarrow> int \<Rightarrow> WorkflowState" where
  "initial_state rid path company max_iter =
     \<lparr>run_id = rid, rfp_path = path, company_name = company, max_iterations = max_iter,
      current_iteration = 0, research_findings = None, validation_report = None,
      bid_outline = None, bid_research_package_path = '''',
      unified_bid_document_path = '''', comprehensive_result_path = '''',
      is_complete = False, errors = []\<rparr>"

definition run ::
  "stages \<Rightarrow> string \<Rightarrow> string \<Rightarrow> string \<Rightarrow> int \<Rightarrow> error + node list \<times> WorkflowState" where
  "run A rid path company max_iter =
     invoke_from recursion_limit A Research (initial_state rid path company max_iter)"

text \<open>The nodes executed and the state returned by a run that returns.\<close>

definition trace_of :: "error + node list \<times> WorkflowState \<Rightarrow> node list option" where
  "trace_of r = (case r of Inl e \<Rightarrow> None | Inr (trace, final) \<Rightarrow> Some trace)"

definition final_of :: "error + node list \<times> WorkflowState \<Rightarrow> WorkflowState option" where
  "final_of r = (case r of Inl e \<Rightarrow> None | Inr (trace, final) \<Rightarrow> Some final)"

subsection \<open>Sample collaborators and states\<close>

text \<open>
  Concrete collaborators for evaluating the workflow: one set that always succeeds (with
  a validation report that is not sufficient), and sets in which a collaborator raises.
\<close>

definition demo_meta :: RFPMeta where
  "demo_meta = \<lparr>title = ''rfp'', version = ''1.0'', deadline_iso = ''2025-12-31T23:59:59'',
      purpose = '''', organization = '''', project_description = '''',
      budget_indication = '''', contract_duration = '''', presentation_details = None,
      timeline = [], evaluation_criteria = [], contact_info = [],
      submission_requirements = [], special_conditions = []\<rparr>"

definition demo_profile :: CompanyProfile where
  "demo_profile = \<lparr>name = ''Acme'', overview = [], hq = [], sites = [], industry = [],
      company_size = [], leadership = [], financial_info = [], certifications = [],
      technology_stack = [], service_areas = [], market_position = [],
      recent_projects = [], partnerships = [], additional_info = []\<rparr>"

definition demo_findings :: ResearchFindings where
  "demo_findings = \<lparr>rfp_meta = demo_meta, extracted_requirements = [],
      company_profile = demo_profile,
      evidence = [], mapped_insights = []\<rparr>"

definition demo_report :: ValidationReport where
  "demo_report = \<lparr>coverage_score = 1/2, rfp_validation_score = 1/2,
      extraction_accuracy = 1/2, gaps = [], quality_notes = [],
      rfp_validation_notes = [], is_sufficient = False\<rparr>"

definition demo_stages :: stages where
  "demo_stages = \<lparr>
     research_agent_process = (\<lambda>s c. Inr demo_findings),
     validator_agent_process = (\<lambda>s f. Inr demo_report),
     writer_agent_process = (\<lambda>s f. Inr \<lparr>sections = []\<rparr>),
     save_bid_research_package = (\<lambda>s f r b. Inr ''package.json''),
     generate_unified_bid_document = (\<lambda>s f r b. Inr ''unified.md''),
     generate_comprehensive_result = (\<lambda>s f r b. Inr ''result.json'')\<rparr>"

definition failing_research_stages :: stages where
  "failing_research_stages =
     demo_stages\<lparr>research_agent_process := (\<lambda>s c. Inl ''connection refused'')\<rparr>"

definition failing_writer_stages :: stages where
  "failing_writer_stages =
     demo_stages\<lparr>writer_agent_process := (\<lambda>s f. Inl ''disk full'')\<rparr>"

definition demo_state :: WorkflowState where
  "demo_state = initial_state ''run-1'' ''rfp.pdf'' ''Acme'' 0"

definition all_failing_stages :: stages where
  "all_failing_stages = \<lparr>
     research_agent_process = (\<lambda>s c. Inl ''connection refused''),
     validator_agent_process = (\<lambda>s f. Inl ''connection refused''),
     writer_agent_process = (\<lambda>s f. Inl ''connection refused''),
     save_bid_research_package = (\<lambda>s f r b. Inl ''connection refused''),
     generate_unified_bid_document = (\<lambda>s f r b. Inl ''connection refused''),
     generate_comprehensive_result = (\<lambda>s f r b. Inl ''connection refused'')\<rparr>"

definition loaded_state :: WorkflowState where
  "loaded_state = demo_state\<lparr>research_findings := Some demo_findings,
                              validation_report := Some demo_report\<rparr>"

subsection \<open>Unfolding the execution\<close>

lemma invoke_from_END [simp]: "invoke_from steps A END s = Inr ([], s)"
  by (cases steps) simp_all

lemma invoke_from_step:
  "n \<noteq> END \<Longrightarrow>
   invoke_from (Suc steps) A n s =
     (case invoke_from steps A (next_node n (exec_node A n s)) (exec_node A n s) of
        Inl e \<Rightarrow> Inl e
      | Inr (trace, final) \<Rightarrow> Inr (n # trace, final))"
  by (simp add: Let_def)

declare invoke_from.simps(2) [simp del]

lemma invoke_from_step_numeral:
  "n \<noteq> END \<Longrightarrow>
   invoke_from (numeral k) A n s =
     (case invoke_from (pred_numeral k) A (next_node n (exec_node A n s)) (exec_node A n s) of
        Inl e \<Rightarrow> Inl e
      | Inr (trace, final) \<Rightarrow> Inr (n # trace, final))"
  by (simp add: numeral_eq_Suc invoke_from_step)

lemma invoke_from_step_1:
  "n \<noteq> END \<Longrightarrow>
   invoke_from 1 A n s =
     (case invoke_from 0 A (next_node n (exec_node A n s)) (exec_node A n s) of
        Inl e \<Rightarrow> Inl e
      | Inr (trace, final) \<Rightarrow> Inr (n # trace, final))"
  using invoke_from_step [of n 0 A s] by simp

lemmas invoke_from_eval = invoke_from_step_numeral invoke_from_step_1 invoke_from_step

lemma invoke_from_Write:
  "invoke_from (Suc (Suc (Suc (Suc steps)))) A Write s =
     Inr ([Write, Save_research, Generate_unified, Generate_comprehensive],
          generate_comprehensive_node A
            (generate_unified_node A (save_research_node A (write_node A s))))"
  by (simp add: invoke_from_step invoke_from_END)

lemma write_node_complete: "is_complete (write_node A s)"
  by (simp add: write_node_def split: option.splits sum.splits)

lemma artifact_nodes_complete:
  "is_complete (save_research_node A s) = is_complete s"
  "is_complete (generate_unified_node A s) = is_complete s"
  "is_complete (generate_comprehensive_node A s) = is_complete s"
  by (simp_all add: save_research_node_def generate_unified_node_def
      generate_comprehensive_node_def split: option.splits sum.splits)

text \<open>
  What holds of the state whenever a node is entered in a run: in the loop, errors have
  been recorded only together with \<open>is_complete\<close>; after write, \<open>is_complete\<close> holds.
\<close>

definition errors_complete :: "WorkflowState \<Rightarrow> bool" where
  "errors_complete s = (errors s = [] \<or> is_complete s)"

fun node_ready :: "node \<Rightarrow> WorkflowState \<Rightarrow> bool" where
  "node_ready Research s = errors_complete s"
| "node_ready Validate s = errors_complete s"
| "node_ready Refine s = errors_complete s"
| "node_ready Write s = True"
| "node_ready n s = is_complete s"

lemma research_node_errors_complete:
  "errors_complete s \<Longrightarrow> errors_complete (research_node A s)"
  by (auto simp: errors_complete_def research_node_def split: sum.splits)

lemma validate_node_errors_complete:
  "errors_complete s \<Longrightarrow> errors_complete (validate_node A s)"
  by (auto simp: errors_complete_def validate_node_def split: sum.splits option.splits)

lemma validate_node_report:
  "errors (validate_node A s) = [] \<Longrightarrow> validation_report (validate_node A s) \<noteq> None"
  by (auto simp: validate_node_def split: sum.splits option.splits)

lemma validate_node_keeps_errors:
  "errors s \<noteq> [] \<Longrightarrow> errors (validate_node A s) \<noteq> []"
  by (simp add: validate_node_def split: option.splits sum.splits)

lemma refine_node_errors_complete:
  "errors_complete s \<Longrightarrow> errors_complete (refine_node s)"
  by (auto simp: errors_complete_def refine_node_def)

lemma node_ready_next:
  assumes "n \<noteq> END" "node_ready n s"
  shows "node_ready (next_node n (exec_node A n s)) (exec_node A n s)"
proof (cases n)
  case Validate
  let ?s' = "validate_node A s"
  have ec: "errors_complete ?s'"
    using assms Validate by (simp add: validate_node_errors_complete)
  show ?thesis
  proof (cases "errors ?s' = []")
    case True
    with validate_node_report [of A s] have "next_node Validate ?s' \<noteq> END"
      by (auto simp: next_node_Validate)
    then have "next_node Validate ?s' = Write \<or> next_node Validate ?s' = Refine"
      by (auto simp: next_node_Validate split: if_splits)
    with ec Validate show ?thesis by auto
  next
    case False
    with ec have "is_complete ?s'" by (simp add: errors_complete_def)
    moreover from False have "next_node Validate ?s' = END"
      by (simp add: next_node_Validate)
    ultimately show ?thesis using Validate by simp
  qed
qed (use assms in \<open>simp_all add: research_node_errors_complete refine_node_errors_complete
      write_node_complete artifact_nodes_complete\<close>)

lemma invoke_from_complete:
  "node_ready n s \<Longrightarrow> invoke_from steps A n s = Inr (trace, final) \<Longrightarrow> is_complete final"
proof (induction steps arbitrary: n s trace)
  case 0
  then show ?case by (simp split: if_splits)
next
  case (Suc steps)
  show ?case
  proof (cases "n = END")
    case True
    with Suc.prems show ?thesis by simp
  next
    case False
    let ?s' = "exec_node A n s"
    from False Suc.prems(2) obtain trace' where
      "invoke_from steps A (next_node n ?s') ?s' = Inr (trace', final)"
      by (auto simp: invoke_from_step split: sum.splits)
    moreover have "node_ready (next_node n ?s') ?s'"
      using False Suc.prems(1) by (rule node_ready_next)
    ultimately show ?thesis by (rule Suc.IH [rotated])
  qed
qed

text \<open>The steps that a run needs at most, from a node with a given budget.\<close>

fun steps_bound :: "node \<Rightarrow> nat \<Rightarrow> nat" where
  "steps_bound END m = 0"
| "steps_bound Generate_comprehensive m = 1"
| "steps_bound Generate_unified m = 2"
| "steps_bound Save_research m = 3"
| "steps_bound Write m = 4"
| "steps_bound Validate m = 3 * m + 5"
| "steps_bound Research m = 3 * m + 6"
| "steps_bound Refine m = 3 * (m - 1) + 7"

lemma steps_bound_next:
  assumes "n \<noteq> END"
  shows "Suc (steps_bound (next_node n (exec_node A n s)) (budget (exec_node A n s)))
           \<le> steps_bound n (budget s)"
proof (cases n)
  case Validate
  let ?s' = "validate_node A s"
  have b: "budget ?s' = budget s" by (simp add: budget_def validate_node_counters)
  have "next_node Validate ?s' = Refine \<and> 0 < budget ?s'
        \<or> next_node Validate ?s' = Write \<or> next_node Validate ?s' = END"
    by (auto simp: next_node_Validate budget_def)
  with b Validate show ?thesis by auto
next
  case Refine
  have "budget (refine_node s) = budget s - 1"
    by (simp add: budget_def refine_node_def)
  with Refine show ?thesis by simp
qed (use assms in \<open>simp_all add: budget_def research_node_counters\<close>)

lemma invoke_from_returns:
  "steps_bound n (budget s) \<le> steps \<Longrightarrow> \<exists>trace final. invoke_from steps A n s = Inr (trace, final)"
proof (induction steps arbitrary: n s)
  case 0
  then have "n = END" by (cases n) simp_all
  then show ?case by simp
next
  case (Suc steps)
  show ?case
  proof (cases "n = END")
    case True
    then show ?thesis by simp
  next
    case False
    let ?s' = "exec_node A n s"
    from steps_bound_next [OF False, of A s] Suc.prems
    have "steps_bound (next_node n ?s') (budget ?s') \<le> steps" by simp
    from Suc.IH [OF this] False show ?thesis
      by (auto simp: invoke_from_step)
  qed
qed

fun research_bound :: "node \<Rightarrow> WorkflowState \<Rightarrow> nat" where
  "research_bound Research s = budget s + 1"
| "research_bound Validate s = budget s"
| "research_bound Refine s = budget (refine_node s) + 1"
| "research_bound n s = 0"

lemma research_bound_next:
  assumes "n \<noteq> END"
  shows "(if n = Research then 1 else 0)
           + research_bound (next_node n (exec_node A n s)) (exec_node A n s)
         \<le> research_bound n s"
proof (cases n)
  case Validate
  let ?s' = "validate_node A s"
  have b: "budget ?s' = budget s" by (simp add: budget_def validate_node_counters)
  have "next_node Validate ?s' = Refine \<and> budget (refine_node ?s') + 1 = budget ?s'
        \<or> next_node Validate ?s' = Write \<or> next_node Validate ?s' = END"
    by (auto simp: next_node_Validate budget_def refine_node_def)
  with b Validate show ?thesis by auto
qed (use assms in \<open>simp_all add: budget_def research_node_counters\<close>)

lemma invoke_from_research_count:
  "invoke_from steps A n s = Inr (trace, final) \<Longrightarrow> count_list trace Research \<le> research_bound n s"
proof (induction steps arbitrary: n s trace)
  case 0
  then show ?case by (simp split: if_splits)
next
  case (Suc steps)
  show ?case
  proof (cases "n = END")
    case True
    with Suc.prems show ?thesis by simp
  next
    case False
    let ?s' = "exec_node A n s"
    from False Suc.prems obtain trace' where
      t: "invoke_from steps A (next_node n ?s') ?s' = Inr (trace', final)" "trace = n # trace'"
      by (auto simp: invoke_from_step split: sum.splits)
    from Suc.IH [OF t(1)] research_bound_next [OF False, of A s] t(2) show ?thesis
      by (auto split: if_splits)
  qed
qed

text \<open>
  Within the recursion limit the iteration budget does bound the run: with
  \<open>3 * max_iterations + 6 \<le> 25\<close> a run returns, with \<open>is_complete\<close> and after at most
  \<open>max_iterations + 1\<close> executions of the research node.
\<close>

lemma run_within_limit:
  assumes "0 \<le> max_iter" "max_iter \<le> 6"
  shows "\<exists>trace final. run A rid path company max_iter = Inr (trace, final)
           \<and> is_complete final \<and> int (count_list trace Research) \<le> max_iter + 1"
proof -
  let ?s0 = "initial_state rid path company max_iter"
  have b: "int (budget ?s0) = max_iter"
    using assms by (simp add: budget_def initial_state_def)
  then have "steps_bound Research (budget ?s0) \<le> recursion_limit"
    using assms by (simp add: recursion_limit_def)
  then obtain trace final where r: "run A rid path company max_iter = Inr (trace, final)"
    unfolding run_def using invoke_from_returns by blast
  have nr: "node_ready Research ?s0" by (simp add: errors_complete_def initial_state_def)
  have "is_complete final"
    by (rule invoke_from_complete [OF nr r [unfolded run_def]])
  moreover from r have "count_list trace Research \<le> budget ?s0 + 1"
    unfolding run_def using invoke_from_research_count by fastforce
  ultimately show ?thesis using r b by auto
qed

lemma run_zero_iterations:
  "run A rid path company 0 =
     (if errors (validate_node A (research_node A (initial_state rid path company 0))) = []
      then Inr ([Research, Validate, Write, Save_research, Generate_unified,
                 Generate_comprehensive],
                generate_comprehensive_node A (generate_unified_node A (save_research_node A
                  (write_node A
                    (validate_node A (research_node A (initial_state rid path company 0)))))))
      else Inr ([Research, Validate],
                validate_node A (research_node A (initial_state rid path company 0))))"
proof -
  let ?s2 = "validate_node A (research_node A (initial_state rid path company 0))"
  have "current_iteration ?s2 = 0" "max_iterations ?s2 = 0"
    by (simp_all add: validate_node_counters research_node_counters initial_state_def)
  then have n: "next_node Validate ?s2 = (if errors ?s2 \<noteq> [] then END else Write)"
    by (simp add: next_node_Validate)
  show ?thesis
    by (simp add: run_def recursion_limit_def invoke_from_eval n)
qed

lemma research_fault_trace:
  assumes "research_agent_process A s (refinement_context s) = Inl e"
  shows "invoke_from (Suc (Suc steps)) A Research s
         = Inr ([Research, Validate], validate_node A (research_node A s))"
proof -
  have "errors (research_node A s) \<noteq> []"
    using assms by (simp add: research_node_def)
  then have "errors (validate_node A (research_node A s)) \<noteq> []"
    by (rule validate_node_keeps_errors)
  then have "next_node Validate (validate_node A (research_node A s)) = END"
    by (simp add: next_node_Validate)
  then show ?thesis
    by (simp add: invoke_from_step)
qed

lemma validate_fault_trace:
  assumes "research_findings s = Some f" "validator_agent_process A s f = Inl e"
  shows "invoke_from (Suc steps) A Validate s = Inr ([Validate], validate_node A s)"
proof -
  have "errors (validate_node A s) \<noteq> []"
    using assms by (simp add: validate_node_def)
  then have "next_node Validate (validate_node A s) = END"
    by (simp add: next_node_Validate)
  then show ?thesis
    by (simp add: invoke_from_step)
qed

lemmas node_defs =
  research_node_def validate_node_def write_node_def refine_node_def save_research_node_def
  generate_unified_node_def generate_comprehensive_node_def refinement_context_def
  next_node_Validate


subsection \<open>The decision after validation\<close>

text \<open>
  Claim C1. After the validate stage the decision is taken in this order: end if
  \<open>errors\<close> is non-empty; otherwise write if \<open>current_iteration \<ge> max_iterations\<close>;
  otherwise end if there is no validation report; otherwise write if the report is
  sufficient; otherwise refine. The path map sends these answers to the nodes \<open>END\<close>,
  \<open>Write\<close> and \<open>Refine\<close>; the refine node adds one to \<open>current_iteration\<close> and leads
  back to research. With \<open>max_iterations = 0\<close> a run returns after executing research
  once and validate once, and when both returned a result (whatever the report says), it
  has gone on to write.
\<close>

theorem should_refine_decision_order:
  "should_refine s =
     (if errors s \<noteq> [] then ''end''
      else if current_iteration s \<ge> max_iterations s then ''write''
      else if validation_report s = None then ''end''
      else if is_sufficient (the (validation_report s)) then ''write''
      else ''refine'')
   \<and> next_node Validate s =
     (if errors s \<noteq> [] then END
      else if current_iteration s \<ge> max_iterations s then Write
      else if validation_report s = None then END
      else if is_sufficient (the (validation_report s)) then Write
      else Refine)
   \<and> current_iteration (exec_node A Refine s) = current_iteration s + 1
   \<and> next_node Refine (exec_node A Refine s) = Research
   \<and> (\<exists>trace final. run A rid path company 0 = Inr (trace, final)
        \<and> count_list trace Research = 1 \<and> count_list trace Validate = 1)
   \<and> (research_agent_process A (initial_state rid path company 0) None = Inr f
        \<and> validator_agent_process A
             ((initial_state rid path company 0)\<lparr>research_findings := Some f\<rparr>) f = Inr rep
      \<longrightarrow> (\<exists>final. run A rid path company 0 =
            Inr ([Research, Validate, Write, Save_research, Generate_unified,
                  Generate_comprehensive], final)))"
proof -
  let ?s0 = "initial_state rid path company 0"
  have a: "should_refine s =
     (if errors s \<noteq> [] then ''end''
      else if current_iteration s \<ge> max_iterations s then ''write''
      else if validation_report s = None then ''end''
      else if is_sufficient (the (validation_report s)) then ''write''
      else ''refine'')"
    by (simp add: should_refine_def split: option.splits)
  have b: "current_iteration (exec_node A Refine s) = current_iteration s + 1"
    by (simp add: refine_node_def)
  have c: "\<exists>trace final. run A rid path company 0 = Inr (trace, final)
        \<and> count_list trace Research = 1 \<and> count_list trace Validate = 1"
    by (simp add: run_zero_iterations)
  have d: "\<exists>final. run A rid path company 0 =
            Inr ([Research, Validate, Write, Save_research, Generate_unified,
                  Generate_comprehensive], final)"
    if "research_agent_process A ?s0 None = Inr f"
      and "validator_agent_process A (?s0\<lparr>research_findings := Some f\<rparr>) f = Inr rep"
  proof -
    have "refinement_context ?s0 = None"
      by (simp add: refinement_context_def initial_state_def)
    with that(1) have "research_node A ?s0 = ?s0\<lparr>research_findings := Some f\<rparr>"
      by (simp add: research_node_def)
    with that(2) have "errors (validate_node A (research_node A ?s0)) = []"
      by (simp add: validate_node_def initial_state_def)
    then show ?thesis by (simp add: run_zero_iterations)
  qed
  show ?thesis using a b c d next_node_Validate [of s] by simp
qed

theorem should_refine_decision_order_witness:
  "research_agent_process demo_stages (initial_state ''run-1'' ''rfp.pdf'' ''Acme'' 0) None
     = Inr demo_findings
   \<and> validator_agent_process demo_stages
       ((initial_state ''run-1'' ''rfp.pdf'' ''Acme'' 0)\<lparr>research_findings := Some demo_findings\<rparr>)
       demo_findings = Inr demo_report
   \<and> \<not> is_sufficient demo_report
   \<and> (\<exists>final. run demo_stages ''run-1'' ''rfp.pdf'' ''Acme'' 0 =
         Inr ([Research, Validate, Write, Save_research, Generate_unified,
               Generate_comprehensive], final))"
  using should_refine_decision_order
    [of demo_state demo_stages "''run-1''" "''rfp.pdf''" "''Acme''" demo_findings demo_report]
  by (simp add: demo_stages_def demo_report_def)


subsection \<open>Termination within the iteration budget\<close>

text \<open>
  Claim C2 says that every run with \<open>max_iterations \<ge> 0\<close> ends with
  \<open>is_complete = True\<close> after at most \<open>max_iterations + 1\<close> executions of the research
  node. The run below has \<open>max_iterations = 7\<close> and a validator that never finds the
  research sufficient: it needs 27 steps, the graph is invoked with the default limit of
  25, and the run raises \<open>GraphRecursionError\<close> instead of returning a state.
\<close>

theorem run_exceeds_recursion_limit:
  "run demo_stages ''run-1'' ''rfp.pdf'' ''Acme'' 7 = Inl GraphRecursionError"
  by (simp add: run_def recursion_limit_def invoke_from_eval node_defs demo_stages_def
      demo_report_def initial_state_def)


subsection \<open>Faults raised inside a stage\<close>

text \<open>
  Claim C3, as stated: a fault in any stage is recorded and the workflow goes to its end
  at once. The run below, whose writer raises, executes the three artifact nodes after
  the fault; the run whose research agent raises still executes the validate node, which
  records a second error.
\<close>

theorem stage_fault_continues_counterexample:
  "writer_agent_process failing_writer_stages
      (validate_node failing_writer_stages (research_node failing_writer_stages demo_state))
      demo_findings = Inl ''disk full''
   \<and> trace_of (run failing_writer_stages ''run-1'' ''rfp.pdf'' ''Acme'' 0) =
       Some [Research, Validate, Write, Save_research, Generate_unified,
             Generate_comprehensive]
   \<and> map_option errors (final_of (run failing_writer_stages ''run-1'' ''rfp.pdf'' ''Acme'' 0)) =
       Some [''Writing error: disk full'']
   \<and> map_option bid_research_package_path
       (final_of (run failing_writer_stages ''run-1'' ''rfp.pdf'' ''Acme'' 0))
       = Some ''package.json''
   \<and> research_agent_process failing_research_stages demo_state None = Inl ''connection refused''
   \<and> trace_of (run failing_research_stages ''run-1'' ''rfp.pdf'' ''Acme'' 0)
       = Some [Research, Validate]
   \<and> map_option errors (final_of (run failing_research_stages ''run-1'' ''rfp.pdf'' ''Acme'' 0)) =
       Some [''Research error: connection refused'', ''No research findings to validate'']"
  by (simp add: run_def recursion_limit_def invoke_from_eval node_defs trace_of_def final_of_def
      failing_writer_stages_def failing_research_stages_def demo_stages_def demo_state_def
      initial_state_def demo_report_def)

text \<open>
  Claim C3, amended. A fault raised by the collaborator of a stage is caught and appended
  to \<open>errors\<close> under the tag of the stage. The research, validate and write nodes also
  set \<open>is_complete\<close>; the three artifact nodes leave every field but \<open>errors\<close> as it was.
  No stage is executed again after a fault: after a research fault only validate follows,
  after a validate fault the graph is at its end, and write is always followed by exactly
  the three artifact nodes, once each (given the steps for them). A run that returns a
  state returns it with \<open>is_complete = True\<close>.
\<close>

theorem stage_faults_recorded_no_retry:
  "(research_agent_process A s (refinement_context s) = Inl e \<longrightarrow>
      research_node A s
        = s\<lparr>errors := errors s @ [''Research error: '' @ e], is_complete := True\<rparr>
      \<and> invoke_from (Suc (Suc steps)) A Research s
        = Inr ([Research, Validate], validate_node A (research_node A s)))
   \<and> (research_findings s = Some f \<and> validator_agent_process A s f = Inl e \<longrightarrow>
      validate_node A s
        = s\<lparr>errors := errors s @ [''Validation error: '' @ e], is_complete := True\<rparr>
      \<and> invoke_from (Suc steps) A Validate s = Inr ([Validate], validate_node A s))
   \<and> (research_findings s = Some f \<and> writer_agent_process A s f = Inl e \<longrightarrow>
      write_node A s
        = s\<lparr>errors := errors s @ [''Writing error: '' @ e], is_complete := True\<rparr>)
   \<and> invoke_from (Suc (Suc (Suc (Suc steps)))) A Write s
       = Inr ([Write, Save_research, Generate_unified, Generate_comprehensive],
              generate_comprehensive_node A
                (generate_unified_node A (save_research_node A (write_node A s))))
   \<and> (research_findings s = Some f \<and> validation_report s = Some r
      \<and> save_bid_research_package A s f r (bid_outline s) = Inl e \<longrightarrow>
      save_research_node A s
        = s\<lparr>errors := errors s @ [''Research package saving error: '' @ e]\<rparr>)
   \<and> (research_findings s = Some f \<and> validation_report s = Some r
      \<and> generate_unified_bid_document A s f r (bid_outline s) = Inl e \<longrightarrow>
      generate_unified_node A s
        = s\<lparr>errors := errors s @ [''Unified document generation error: '' @ e]\<rparr>)
   \<and> (research_findings s = Some f \<and> validation_report s = Some r
      \<and> generate_comprehensive_result A s f r (bid_outline s) = Inl e \<longrightarrow>
      generate_comprehensive_node A s
        = s\<lparr>errors := errors s @ [''Comprehensive result generation error: '' @ e]\<rparr>)
   \<and> (run A rid path company max_iter = Inr (trace, final) \<longrightarrow> is_complete final)"
proof -
  have nr: "node_ready Research (initial_state rid path company max_iter)"
    by (simp add: errors_complete_def initial_state_def)
  have "is_complete final" if "run A rid path company max_iter = Inr (trace, final)"
    by (rule invoke_from_complete [OF nr that [unfolded run_def]])
  then show ?thesis
    by (simp add: research_fault_trace validate_fault_trace invoke_from_Write
        research_node_def validate_node_def write_node_def save_research_node_def
        generate_unified_node_def generate_comprehensive_node_def)
qed

theorem stage_faults_recorded_no_retry_witness:
  "research_agent_process all_failing_stages loaded_state (refinement_context loaded_state)
     = Inl ''connection refused''
   \<and> research_findings loaded_state = Some demo_findings
   \<and> validation_report loaded_state = Some demo_report
   \<and> validator_agent_process all_failing_stages loaded_state demo_findings
     = Inl ''connection refused''
   \<and> writer_agent_process all_failing_stages loaded_state demo_findings
     = Inl ''connection refused''
   \<and> save_bid_research_package all_failing_stages loaded_state demo_findings demo_report
       (bid_outline loaded_state) = Inl ''connection refused''
   \<and> generate_unified_bid_document all_failing_stages loaded_state demo_findings demo_report
       (bid_outline loaded_state) = Inl ''connection refused''
   \<and> generate_comprehensive_result all_failing_stages loaded_state demo_findings demo_report
       (bid_outline loaded_state) = Inl ''connection refused''
   \<and> run all_failing_stages ''run-1'' ''rfp.pdf'' ''Acme'' 3
     = Inr ([Research, Validate],
            validate_node all_failing_stages
              (research_node all_failing_stages (initial_state ''run-1'' ''rfp.pdf'' ''Acme'' 3)))
   \<and> errors (research_node all_failing_stages loaded_state)
     = [''Research error: connection refused'']
   \<and> trace_of (invoke_from 25 all_failing_stages Research loaded_state)
     = Some [Research, Validate]
   \<and> errors (validate_node all_failing_stages loaded_state)
     = [''Validation error: connection refused'']
   \<and> trace_of (invoke_from 25 all_failing_stages Validate loaded_state) = Some [Validate]
   \<and> errors (write_node all_failing_stages loaded_state)
     = [''Writing error: connection refused'']
   \<and> is_complete (write_node all_failing_stages loaded_state)
   \<and> errors (save_research_node all_failing_stages loaded_state)
     = [''Research package saving error: connection refused'']
   \<and> errors (generate_unified_node all_failing_stages loaded_state)
     = [''Unified document generation error: connection refused'']
   \<and> errors (generate_comprehensive_node all_failing_stages loaded_state)
     = [''Comprehensive result generation error: connection refused'']
   \<and> is_complete (validate_node all_failing_stages
        (research_node all_failing_stages (initial_state ''run-1'' ''rfp.pdf'' ''Acme'' 3)))"
proof -
  have r: "run all_failing_stages ''run-1'' ''rfp.pdf'' ''Acme'' 3
     = Inr ([Research, Validate],
            validate_node all_failing_stages
              (research_node all_failing_stages (initial_state ''run-1'' ''rfp.pdf'' ''Acme'' 3)))"
    by (simp add: run_def recursion_limit_def invoke_from_eval next_node_Validate
        validate_node_def research_node_def all_failing_stages_def initial_state_def)
  have e: "Suc (Suc 23) = 25" "Suc 24 = 25" by simp_all
  show ?thesis
    using stage_faults_recorded_no_retry
      [of all_failing_stages loaded_state "''connection refused''" 23 demo_findings demo_report
          "''run-1''" "''rfp.pdf''" "''Acme''" 3 "[Research, Validate]"
          "validate_node all_failing_stages
              (research_node all_failing_stages (initial_state ''run-1'' ''rfp.pdf'' ''Acme'' 3))"]
      stage_faults_recorded_no_retry
      [of all_failing_stages loaded_state "''connection refused''" 24 demo_findings demo_report]
      r
    by (simp add: all_failing_stages_def loaded_state_def demo_state_def initial_state_def
        trace_of_def e)
qed


subsection \<open>The frame of the refine node\<close>

text \<open>
  Claim C9. The refine node adds exactly one to \<open>current_iteration\<close> and leaves each of
  the other twelve entries of the state unchanged.
\<close>

theorem refine_node_frame:
  "current_iteration (refine_node s) = current_iteration s + 1
   \<and> run_id (refine_node s) = run_id s
   \<and> rfp_path (refine_node s) = rfp_path s
   \<and> company_name (refine_node s) = company_name s
   \<and> max_iterations (refine_node s) = max_iterations s
   \<and> research_findings (refine_node s) = research_findings s
   \<and> validation_report (refine_node s) = validation_report s
   \<and> bid_outline (refine_node s) = bid_outline s
   \<and> bid_research_package_path (refine_node s) = bid_research_package_path s
   \<and> unified_bid_document_path (refine_node s) = unified_bid_document_path s
   \<and> comprehensive_result_path (refine_node s) = comprehensive_result_path s
   \<and> is_complete (refine_node s) = is_complete s
   \<and> errors (refine_node s) = errors s"
  by (simp add: refine_node_def)


section \<open>Insight mapping (app/agents/research_agent.py)\<close>

text \<open>
  Building a \<open>MappedInsight\<close> validates its confidence (\<open>ge=0.0, le=1.0\<close>); a value out
  of range raises. \<open>is_relevant\<close> is the test of \<open>_create_insights\<close>: the category value
  is among the tags of the evidence, or one of the first three words of the requirement
  text, lower-cased, occurs in the lower-cased snippet.
\<close>

definition new_MappedInsight ::
  "string \<Rightarrow> string \<Rightarrow> nat list \<Rightarrow> real \<Rightarrow> error + MappedInsight" where
  "new_MappedInsight rid rat idx conf =
     (if 0 \<le> conf \<and> conf \<le> 1
      then Inr \<lparr>requirement_id = rid, rationale = rat, supporting_evidence_idx = idx,
                confidence = conf\<rparr>
      else Inl (ValidationError ''confidence''))"

definition is_relevant :: "Requirement \<Rightarrow> Evidence \<Rightarrow> bool" where
  "is_relevant req ev =
     (category_value (category req) \<in> set (tags ev)
      \<or> list_ex (\<lambda>word. str_in word (str_lower (Evidence.snippet ev)))
           (take 3 (str_split (str_lower (text req)))))"

definition relevant_evidence :: "Requirement \<Rightarrow> Evidence list \<Rightarrow> nat list" where
  "relevant_evidence req evs =
     map fst (filter (\<lambda>(j, ev). is_relevant req ev) (enumerate 0 evs))"

fun insights_loop ::
  "Requirement list \<Rightarrow> Evidence list \<Rightarrow> MappedInsight list \<Rightarrow> error + MappedInsight list" where
  "insights_loop [] evs insights = Inr insights"
| "insights_loop (req # reqs) evs insights =
     (let relevant = relevant_evidence req evs in
      if relevant \<noteq> [] then
        (let evidence_confidences = map (\<lambda>j. Evidence.confidence (evs ! j)) relevant;
             avg_confidence = sum_list evidence_confidences / real (length evidence_confidences)
         in case new_MappedInsight (Requirement.id req)
                   (''Evidence found supporting '' @ category_value (category req)
                    @ '' requirement'')
                   relevant avg_confidence of
              Inl e \<Rightarrow> Inl e
            | Inr insight \<Rightarrow> insights_loop reqs evs (insights @ [insight]))
      else insights_loop reqs evs insights)"

definition create_insights ::
  "Requirement list \<Rightarrow> Evidence list \<Rightarrow> error + MappedInsight list" where
  "create_insights requirements evs = insights_loop requirements evs []"

lemma relevant_evidence_bounds: "j \<in> set (relevant_evidence req evs) \<Longrightarrow> j < length evs"
  by (auto simp: relevant_evidence_def in_set_enumerate_eq)

lemma relevant_evidence_increasing: "sorted_wrt (<) (relevant_evidence req evs)"
proof -
  have "sorted_wrt (\<lambda>p q. fst p < fst q) (enumerate 0 evs)"
    using sorted_wrt_map [of "(<)" fst "enumerate 0 evs"] by simp
  then have "sorted_wrt (\<lambda>p q. fst p < fst q)
               (filter (\<lambda>(j, ev). is_relevant req ev) (enumerate 0 evs))"
    by (rule sorted_wrt_filter)
  then show ?thesis by (simp add: relevant_evidence_def sorted_wrt_map)
qed

lemma insights_loop_result:
  "insights_loop reqs evs acc = Inr ins \<Longrightarrow>
   \<exists>new. ins = acc @ new
     \<and> map requirement_id new
         = map Requirement.id (filter (\<lambda>r. relevant_evidence r evs \<noteq> []) reqs)
     \<and> (\<forall>i \<in> set new. \<exists>r \<in> set reqs. supporting_evidence_idx i = relevant_evidence r evs)"
proof (induction reqs arbitrary: acc)
  case Nil
  then show ?case by simp
next
  case (Cons req reqs)
  show ?case
  proof (cases "relevant_evidence req evs = []")
    case True
    with Cons.prems have "insights_loop reqs evs acc = Inr ins" by simp
    from Cons.IH [OF this] True show ?thesis by auto
  next
    case False
    with Cons.prems obtain insight where
      mk: "new_MappedInsight (Requirement.id req)
             (''Evidence found supporting '' @ category_value (category req) @ '' requirement'')
             (relevant_evidence req evs)
             (sum_list (map (\<lambda>j. Evidence.confidence (evs ! j)) (relevant_evidence req evs))
               / real (length (relevant_evidence req evs))) = Inr insight"
      and rest: "insights_loop reqs evs (acc @ [insight]) = Inr ins"
      by (auto simp: Let_def split: sum.splits)
    from mk have f: "requirement_id insight = Requirement.id req"
      "supporting_evidence_idx insight = relevant_evidence req evs"
      by (auto simp: new_MappedInsight_def split: if_splits)
    from Cons.IH [OF rest] obtain new where
      new: "ins = (acc @ [insight]) @ new"
        "map requirement_id new
           = map Requirement.id (filter (\<lambda>r. relevant_evidence r evs \<noteq> []) reqs)"
        "\<forall>i \<in> set new. \<exists>r \<in> set reqs. supporting_evidence_idx i = relevant_evidence r evs"
      by blast
    show ?thesis
    proof (intro exI [of _ "insight # new"] conjI)
      show "ins = acc @ insight # new" using new(1) by simp
      show "map requirement_id (insight # new)
           = map Requirement.id (filter (\<lambda>r. relevant_evidence r evs \<noteq> []) (req # reqs))"
        using new(2) f(1) False by simp
      show "\<forall>i \<in> set (insight # new). \<exists>r \<in> set (req # reqs).
              supporting_evidence_idx i = relevant_evidence r evs"
        using new(3) f(2) by auto
    qed
  qed
qed

lemma create_insights_result:
  assumes "create_insights reqs evs = Inr ins"
  shows "map requirement_id ins
           = map Requirement.id (filter (\<lambda>r. relevant_evidence r evs \<noteq> []) reqs)"
    and "\<forall>i \<in> set ins. \<exists>r \<in> set reqs. supporting_evidence_idx i = relevant_evidence r evs"
  using insights_loop_result [of reqs evs "[]" ins] assms
  by (auto simp: create_insights_def)

lemma distinct_map_filter_le_1:
  "distinct (map f xs) \<Longrightarrow> length (filter (\<lambda>i. f i = x) xs) \<le> 1"
proof (induction xs)
  case Nil
  then show ?case by simp
next
  case (Cons a xs)
  show ?case
  proof (cases "f a = x")
    case True
    from Cons.prems have "f a \<notin> f ` set xs" by simp
    with True have "\<forall>i \<in> set xs. f i \<noteq> x" by blast
    then have "filter (\<lambda>i. f i = x) xs = []"
      by (simp add: filter_empty_conv)
    with True show ?thesis by simp
  next
    case False
    with Cons show ?thesis by simp
  qed
qed

lemma sum_list_unit_bounds:
  assumes "\<forall>x \<in> set xs. 0 \<le> x \<and> x \<le> (1::real)"
  shows "0 \<le> sum_list xs \<and> sum_list xs \<le> real (length xs)"
  using assms by (induction xs) auto
 
lemma average_unit_bounds:
  assumes "\<forall>x \<in> set xs. 0 \<le> x \<and> x \<le> (1::real)" "xs \<noteq> []"
  shows "0 \<le> sum_list xs / real (length xs) \<and> sum_list xs / real (length xs) \<le> 1"
  using sum_list_unit_bounds [OF assms(1)] assms(2) by (simp add: divide_le_eq)

lemma insights_loop_total:
  assumes "\<forall>e \<in> set evs. 0 \<le> Evidence.confidence e \<and> Evidence.confidence e \<le> 1"
  shows "\<exists>ins. insights_loop reqs evs acc = Inr ins"
proof (induction reqs arbitrary: acc)
  case Nil
  show ?case by simp
next
  case (Cons req reqs)
  show ?case
  proof (cases "relevant_evidence req evs = []")
    case True
    with Cons.IH [of acc] show ?thesis by simp
  next
    case False
    let ?cs = "map (\<lambda>j. Evidence.confidence (evs ! j)) (relevant_evidence req evs)"
    have "\<forall>x \<in> set ?cs. 0 \<le> x \<and> x \<le> 1"
      using assms relevant_evidence_bounds [of _ req evs] by auto
    moreover have "?cs \<noteq> []" using False by simp
    ultimately have "0 \<le> sum_list ?cs / real (length ?cs) \<and> sum_list ?cs / real (length ?cs) \<le> 1"
      by (rule average_unit_bounds)
    then obtain insight where
      "new_MappedInsight (Requirement.id req)
         (''Evidence found supporting '' @ category_value (category req) @ '' requirement'')
         (relevant_evidence req evs) (sum_list ?cs / real (length ?cs)) = Inr insight"
      by (simp add: new_MappedInsight_def)
    with False Cons.IH [of "acc @ [insight]"] show ?thesis
      by (simp add: Let_def)
  qed
qed

lemma create_insights_total:
  "\<forall>e \<in> set evs. 0 \<le> Evidence.confidence e \<and> Evidence.confidence e \<le> 1
   \<Longrightarrow> \<exists>ins. create_insights reqs evs = Inr ins"
  unfolding create_insights_def by (rule insights_loop_total)

subsection \<open>Sample requirements and evidence\<close>

definition req_support :: Requirement where
  "req_support = \<lparr>Requirement.id = ''REQ-001'', text = ''support 500 users'',
      category = SUPPORT, priority = ''medium'',
      business_impact = ''Extracted from regex patterns'', evaluation_weight = 0,
      source_section = ''Regex pattern extraction''\<rparr>"

definition req_teams :: Requirement where
  "req_teams = \<lparr>Requirement.id = ''REQ-002'', text = ''integration with Teams'',
      category = INTEGRATION, priority = ''medium'',
      business_impact = ''Extracted from regex patterns'', evaluation_weight = 0,
      source_section = ''Regex pattern extraction''\<rparr>"

definition sample_evidence :: "Evidence list" where
  "sample_evidence =
     [\<lparr>source_url = ''https://acme.com/help'', snippet = ''Acme help desk'',
        confidence = 1/2, tags = [''support'', ''search-result'']\<rparr>,
      \<lparr>source_url = ''https://example.org/roi'', snippet = ''Nothing here'',
        confidence = 4/5, tags = [''roi'', ''search-result'']\<rparr>,
      \<lparr>source_url = ''https://acme.com/scale'', snippet = ''We SUPPORT many'',
        confidence = 9/10, tags = [''search-result'']\<rparr>]"

definition sample_insights :: "MappedInsight list" where
  "sample_insights =
     [\<lparr>requirement_id = ''REQ-001'',
       rationale = ''Evidence found supporting support requirement'',
       supporting_evidence_idx = [0, 2], confidence = 7/10\<rparr>]"

lemma create_insights_sample:
  "create_insights [req_support, req_teams] sample_evidence = Inr sample_insights"
  by (simp add: create_insights_def relevant_evidence_def is_relevant_def req_support_def
      req_teams_def sample_evidence_def sample_insights_def new_MappedInsight_def
      str_split_def str_lower_def lower_char_def isspace_def enumerate_eq_zip upt_rec)

lemma sample_requirements_distinct: "distinct (map Requirement.id [req_support, req_teams])"
  by (simp add: req_support_def req_teams_def)


subsection \<open>Evidence indices are in bounds\<close>

text \<open>
  Claim C7. Every insight that \<open>_create_insights\<close> builds from a list of requirements and
  a list of evidence has all the indices of its \<open>supporting_evidence_idx\<close> below the
  length of the evidence list.
\<close>

theorem insight_indices_in_bounds:
  assumes "create_insights reqs evs = Inr ins"
  shows "\<forall>i \<in> set ins. \<forall>j \<in> set (supporting_evidence_idx i). j < length evs"
  using create_insights_result(2) [OF assms] relevant_evidence_bounds by metis

theorem insight_indices_in_bounds_witness:
  "create_insights [req_support, req_teams] sample_evidence = Inr sample_insights
   \<and> list_all (\<lambda>i. list_all (\<lambda>j. j < length sample_evidence) (supporting_evidence_idx i))
       sample_insights"
  using insight_indices_in_bounds [OF create_insights_sample] create_insights_sample
  by (simp add: list_all_iff)


subsection \<open>One insight per requirement, in order, with increasing indices\<close>

text \<open>
  Claim C10. For requirements with pairwise distinct ids, the insights have pairwise
  distinct requirement ids (so at most one insight for each requirement), their ids
  appear in the order of the requirements (they form a subsequence of the ids of the
  requirements), and the indices in each \<open>supporting_evidence_idx\<close> are strictly
  increasing.
\<close>

theorem insights_follow_requirements:
  assumes "distinct (map Requirement.id reqs)"
    and "create_insights reqs evs = Inr ins"
  shows "distinct (map requirement_id ins)
       \<and> (\<forall>r \<in> set reqs. length (filter (\<lambda>i. requirement_id i = Requirement.id r) ins) \<le> 1)
       \<and> subseq (map requirement_id ins) (map Requirement.id reqs)
       \<and> (\<forall>i \<in> set ins. sorted_wrt (<) (supporting_evidence_idx i))"
proof -
  let ?kept = "filter (\<lambda>r. relevant_evidence r evs \<noteq> []) reqs"
  have m: "map requirement_id ins = map Requirement.id ?kept"
    by (rule create_insights_result(1) [OF assms(2)])
  have s: "subseq (map requirement_id ins) (map Requirement.id reqs)"
    unfolding m by (simp add: subseq_map)
  have d: "distinct (map requirement_id ins)"
    unfolding m using assms(1) by (rule distinct_map_filter)
  have one: "length (filter (\<lambda>i. requirement_id i = x) ins) \<le> 1" for x
    using d by (rule distinct_map_filter_le_1)
  have inc: "\<forall>i \<in> set ins. sorted_wrt (<) (supporting_evidence_idx i)"
    using create_insights_result(2) [OF assms(2)] relevant_evidence_increasing by metis
  from d one s inc show ?thesis by blast
qed

theorem insights_follow_requirements_witness:
  "distinct (map Requirement.id [req_support, req_teams])
   \<and> create_insights [req_support, req_teams] sample_evidence = Inr sample_insights
   \<and> distinct (map requirement_id sample_insights)
   \<and> subseq (map requirement_id sample_insights) (map Requirement.id [req_support, req_teams])
   \<and> list_all (\<lambda>i. sorted_wrt (<) (supporting_evidence_idx i)) sample_insights"
  using insights_follow_requirements [OF sample_requirements_distinct create_insights_sample]
    sample_requirements_distinct create_insights_sample
  by (simp add: list_all_iff)


section \<open>Evidence confidence (app/agents/research_agent.py)\<close>

text \<open>\<open>SearchResult\<close> of app/tools/search.py, and \<open>_calculate_confidence\<close>.\<close>

record SearchResult =
  result_title :: string
  url :: string
  snippet :: string

definition calculate_confidence :: "SearchResult \<Rightarrow> Requirement \<Rightarrow> CompanyProfile \<Rightarrow> real" where
  "calculate_confidence search_result requirement profile =
     (let score0 = 0;
          score1 =
            (if str_in (filter (\<lambda>c. c \<noteq> CHR '' '') (str_lower (name profile)))
                  (str_lower (url search_result))
             then score0 + 0.3
             else if list_ex (\<lambda>domain. str_in domain (url search_result))
                       [''.gov'', ''.edu'', ''.org'']
             then score0 + 0.2
             else score0);
          snippet_lower = str_lower (SearchResult.snippet search_result);
          req_words = str_split (str_lower (text requirement));
          word_matches = length (filter (\<lambda>word. str_in word snippet_lower) req_words);
          score2 =
            (if word_matches > 0
             then score1 + min 0.4 (real word_matches / real (length req_words) * 0.4)
             else score1);
          score3 =
            (if str_in (str_lower (name profile)) snippet_lower then score2 + 0.2 else score2)
      in min 1.0 score3)"

subsection \<open>The sample search result\<close>

definition sample_result :: SearchResult where
  "sample_result = \<lparr>result_title = ''Help'', url = ''https://WWW.ACME.COM/help'',
      snippet = ''zzz''\<rparr>"

definition sample_request :: Requirement where
  "sample_request = \<lparr>Requirement.id = ''REQ-001'', text = ''support 500 users'',
      category = SUPPORT, priority = ''medium'',
      business_impact = ''Extracted from regex patterns'', evaluation_weight = 0,
      source_section = ''Regex pattern extraction''\<rparr>"

text \<open>
  The sum as claim C6 words it, for comparison with \<open>calculate_confidence\<close>: the company
  name, lower-cased and without spaces, is looked for in the URL as it is given.
\<close>

definition confidence_as_claimed :: "SearchResult \<Rightarrow> Requirement \<Rightarrow> CompanyProfile \<Rightarrow> real" where
  "confidence_as_claimed sr req cp =
     (if str_in (filter (\<lambda>c. c \<noteq> CHR '' '') (str_lower (name cp))) (url sr) then 0.3
      else if str_in ''.gov'' (url sr) \<or> str_in ''.edu'' (url sr) \<or> str_in ''.org'' (url sr)
      then 0.2
      else 0)
     + (if str_split (str_lower (text req)) = [] then 0
        else min 0.4
          (real (length (filter (\<lambda>word. str_in word (str_lower (SearchResult.snippet sr)))
                           (str_split (str_lower (text req)))))
           / real (length (str_split (str_lower (text req)))) * 0.4))
     + (if str_in (str_lower (name cp)) (str_lower (SearchResult.snippet sr)) then 0.2 else 0)"

subsection \<open>The confidence of an evidence item\<close>

text \<open>
  Claim C6, as stated: the first part is 0.3 if the company name, lower-cased and
  without spaces, appears in the result URL. For the company \<open>Acme\<close> and the URL
  \<open>https://WWW.ACME.COM/help\<close> the parts as stated sum to 0, and the confidence is 0.3:
  the code lower-cases the URL as well.
\<close>

theorem confidence_url_case_counterexample:
  "confidence_as_claimed sample_result sample_request demo_profile = 0
   \<and> calculate_confidence sample_result sample_request demo_profile = 3 / 10"
  by (simp add: confidence_as_claimed_def calculate_confidence_def Let_def sample_result_def
      sample_request_def demo_profile_def str_split_def str_lower_def lower_char_def
      isspace_def)

text \<open>
  Claim C6, amended. The confidence is the sum of three parts: 0.3 if the company name,
  lower-cased and without spaces, occurs in the lower-cased URL, else 0.2 if the URL
  contains \<open>.gov\<close>, \<open>.edu\<close> or \<open>.org\<close>, else 0; the share of the requirement's words that
  occur in the snippet times 0.4, capped at 0.4 (nothing when the requirement has no
  words); and 0.2 if the company name occurs in the snippet, ignoring case. The result
  lies between 0 and 1.
\<close>

theorem confidence_is_clamped_sum:
  "calculate_confidence sr req cp =
     (if str_in (filter (\<lambda>c. c \<noteq> CHR '' '') (str_lower (name cp))) (str_lower (url sr))
      then 0.3
      else if str_in ''.gov'' (url sr) \<or> str_in ''.edu'' (url sr) \<or> str_in ''.org'' (url sr)
      then 0.2
      else 0)
     + (if str_split (str_lower (text req)) = [] then 0
        else min 0.4
          (real (length (filter (\<lambda>word. str_in word (str_lower (SearchResult.snippet sr)))
                           (str_split (str_lower (text req)))))
           / real (length (str_split (str_lower (text req)))) * 0.4))
     + (if str_in (str_lower (name cp)) (str_lower (SearchResult.snippet sr)) then 0.2 else 0)
   \<and> 0 \<le> calculate_confidence sr req cp
   \<and> calculate_confidence sr req cp \<le> 1"
proof -
  define ws where "ws = str_split (str_lower (text req))"
  define m where "m = length (filter (\<lambda>word. str_in word (str_lower (SearchResult.snippet sr))) ws)"
  define a :: real where "a =
     (if str_in (filter (\<lambda>c. c \<noteq> CHR '' '') (str_lower (name cp))) (str_lower (url sr))
      then 0.3
      else if str_in ''.gov'' (url sr) \<or> str_in ''.edu'' (url sr) \<or> str_in ''.org'' (url sr)
      then 0.2 else 0)"
  define b :: real where "b = (if m > 0 then min 0.4 (real m / real (length ws) * 0.4) else 0)"
  define c :: real where "c =
     (if str_in (str_lower (name cp)) (str_lower (SearchResult.snippet sr)) then 0.2 else 0)"
  have mle: "m \<le> length ws" by (simp add: m_def)
  have a: "0 \<le> a" "a \<le> 0.3" by (simp_all add: a_def)
  have c: "0 \<le> c" "c \<le> 0.2" by (simp_all add: c_def)
  have b: "0 \<le> b" "b \<le> 0.4"
    by (simp add: b_def) (auto simp: b_def intro: min.coboundedI1)
  have b': "b = (if ws = [] then 0 else min 0.4 (real m / real (length ws) * 0.4))"
    using mle by (auto simp: b_def)
  have "calculate_confidence sr req cp = min 1 (a + b + c)"
    by (simp add: calculate_confidence_def Let_def a_def b_def c_def m_def ws_def)
  moreover have "a + b + c \<le> 1" "0 \<le> a + b + c" using a b c by simp_all
  ultimately have "calculate_confidence sr req cp = a + b + c"
    "0 \<le> calculate_confidence sr req cp" "calculate_confidence sr req cp \<le> 1"
    by simp_all
  then show ?thesis
    unfolding b' unfolding a_def c_def m_def ws_def by simp
qed


section \<open>The completion service\<close>

text \<open>
  A call of \<open>self.llm.invoke\<close> either raises (with the message of the exception) or
  returns a reply with its content. The replies are inputs of the modelled functions.
\<close>

datatype llm_reply = Raises string | Content string


section \<open>Validation (app/agents/validator_agent.py)\<close>

text \<open>The decoded reply of the completion service; an absent score is \<open>None\<close>.\<close>

record validation_data =
  validation_score :: "real option"
  additional_search_queries :: "string list"
  validation_notes :: "string list"

definition in_unit_interval :: "real \<Rightarrow> bool" where
  "in_unit_interval x = (0 \<le> x \<and> x \<le> 1)"

definition new_ValidationReport ::
  "real \<Rightarrow> real \<Rightarrow> real \<Rightarrow> Gap list \<Rightarrow> string list \<Rightarrow> string list \<Rightarrow> bool
    \<Rightarrow> error + ValidationReport" where
  "new_ValidationReport coverage rfp_score accuracy gs notes rfp_notes sufficient =
     (if \<not> in_unit_interval coverage then Inl (ValidationError ''coverage_score'')
      else if \<not> in_unit_interval rfp_score then Inl (ValidationError ''rfp_validation_score'')
      else if \<not> in_unit_interval accuracy then Inl (ValidationError ''extraction_accuracy'')
      else Inr \<lparr>coverage_score = coverage, rfp_validation_score = rfp_score,
                extraction_accuracy = accuracy, gaps = gs, quality_notes = notes,
                rfp_validation_notes = rfp_notes, is_sufficient = sufficient\<rparr>)"

definition additional_research_gap :: "(real \<Rightarrow> string) \<Rightarrow> real \<Rightarrow> string list \<Rightarrow> Gap" where
  "additional_research_gap format_2f score queries =
     \<lparr>gap_requirement_id = ''ADDITIONAL_RESEARCH'',
      why = ''Validation score '' @ format_2f score
            @ '' below threshold 0.7 - additional research needed'',
      suggested_queries = queries\<rparr>"

text \<open>
  \<open>_simple_fallback_validation\<close>. \<open>format_2f\<close> is Python's \<open>:.2f\<close> formatting, a
  parameter here.
\<close>

definition simple_fallback_validation ::
  "(real \<Rightarrow> string) \<Rightarrow> ResearchFindings \<Rightarrow> error + ValidationReport" where
  "simple_fallback_validation format_2f findings =
     (let score =
        (if extracted_requirements findings = [] then 0
         else
           (let covered_requirements = remdups (map requirement_id (mapped_insights findings));
                coverage_ratio = real (length covered_requirements)
                                 / real (length (extracted_requirements findings))
            in if evidence findings \<noteq> []
               then coverage_ratio
                    * (sum_list (map Evidence.confidence (evidence findings))
                       / real (length (evidence findings)))
               else coverage_ratio * 0.5));
          company = name (company_profile findings);
          additional_queries =
            (if score < 0.7
             then [company @ '' case studies and success stories'',
                   company @ '' technical capabilities and certifications'',
                   company @ '' relevant project experience'',
                   company @ '' competitive advantages and differentiators'',
                   company @ '' industry expertise and partnerships'']
             else []);
          gs = (if score < 0.7 \<and> additional_queries \<noteq> []
                then [additional_research_gap format_2f score additional_queries] else [])
      in new_ValidationReport score score score gs
           [''Simple validation score: '' @ format_2f score] [] (score \<ge> 0.7))"

text \<open>The exceptions that the handler of \<open>process\<close> catches.\<close>

fun caught :: "error \<Rightarrow> bool" where
  "caught JSONDecodeError = True"
| "caught KeyError = True"
| "caught (ValidationError field) = True"
| "caught (ServiceError e) = False"
| "caught (OtherError e) = False"

text \<open>
  The body of the \<open>try\<close> block of \<open>process\<close>: decode the reply, take the score (0.0 when
  absent), compare it with the threshold, and build the report.
\<close>

definition primary_validation ::
  "(real \<Rightarrow> string) \<Rightarrow> (string \<Rightarrow> error + validation_data) \<Rightarrow> string
    \<Rightarrow> error + ValidationReport" where
  "primary_validation format_2f parse_validation_response content =
     (case parse_validation_response content of
        Inl err \<Rightarrow> Inl err
      | Inr data \<Rightarrow>
          (let score = (case validation_score data of Some v \<Rightarrow> v | None \<Rightarrow> 0);
               additional_queries = additional_search_queries data;
               sufficient = (score \<ge> 0.7);
               gs = (if \<not> sufficient \<and> additional_queries \<noteq> []
                     then [additional_research_gap format_2f score additional_queries]
                     else [])
           in new_ValidationReport score score score gs (validation_notes data) []
                sufficient))"

text \<open>
  \<open>process\<close>. \<open>response\<close> is the reply of the completion service, and
  \<open>parse_validation_response\<close> decodes its content (stripping a code fence and
  \<open>json.loads\<close>). The call of the service is made before the \<open>try\<close> block, so its fault
  is not handled here.
\<close>

definition validator_process ::
  "(real \<Rightarrow> string) \<Rightarrow> (string \<Rightarrow> error + validation_data) \<Rightarrow> ResearchFindings \<Rightarrow> llm_reply
    \<Rightarrow> error + ValidationReport" where
  "validator_process format_2f parse_validation_response input_data response =
     (case response of
        Raises e \<Rightarrow> Inl (ServiceError e)
      | Content c \<Rightarrow>
          (case primary_validation format_2f parse_validation_response c of
             Inr report \<Rightarrow> Inr report
           | Inl err \<Rightarrow>
               if caught err then simple_fallback_validation format_2f input_data
               else Inl err))"

lemma new_ValidationReport_threshold:
  "new_ValidationReport s s s gs notes rn (s \<ge> 0.7) = Inr r
   \<Longrightarrow> is_sufficient r = (coverage_score r \<ge> 0.7)"
  by (auto simp: new_ValidationReport_def split: if_splits)

lemma simple_fallback_validation_threshold:
  "simple_fallback_validation fmt f = Inr r \<Longrightarrow> is_sufficient r = (coverage_score r \<ge> 0.7)"
  unfolding simple_fallback_validation_def Let_def
  by (rule new_ValidationReport_threshold)

lemma primary_validation_threshold:
  assumes "primary_validation fmt parse c = Inr r"
  shows "is_sufficient r = (coverage_score r \<ge> 0.7)"
proof (cases "parse c")
  case (Inl err)
  with assms show ?thesis by (simp add: primary_validation_def)
next
  case (Inr data)
  from assms show ?thesis
    unfolding primary_validation_def Let_def Inr sum.case
    by (rule new_ValidationReport_threshold)
qed

lemma validator_process_threshold:
  assumes "validator_process fmt parse f response = Inr r"
  shows "is_sufficient r = (coverage_score r \<ge> 0.7)"
proof (cases response)
  case (Raises e)
  with assms show ?thesis by (simp add: validator_process_def)
next
  case (Content c)
  show ?thesis
  proof (cases "primary_validation fmt parse c")
    case (Inl err)
    with assms Content have "simple_fallback_validation fmt f = Inr r"
      by (simp add: validator_process_def split: if_splits)
    then show ?thesis by (rule simple_fallback_validation_threshold)
  next
    case (Inr report)
    with assms Content have "report = r" by (simp add: validator_process_def)
    with Inr show ?thesis using primary_validation_threshold by blast
  qed
qed

lemma validator_process_score:
  assumes "parse c = Inr data" "validation_score data = Some v" "0 \<le> v" "v \<le> 1"
  shows "\<exists>r. validator_process fmt parse f (Content c) = Inr r
           \<and> coverage_score r = v \<and> is_sufficient r = (v \<ge> 0.7)"
  using assms
  by (simp add: validator_process_def primary_validation_def Let_def new_ValidationReport_def
      in_unit_interval_def)

subsection \<open>Sample replies\<close>

definition sample_format_2f :: "real \<Rightarrow> string" where
  "sample_format_2f x = ''0.00''"

definition sample_parse :: "string \<Rightarrow> error + validation_data" where
  "sample_parse c =
     (if c = ''score 0.7''
      then Inr \<lparr>validation_score = Some 0.7, additional_search_queries = [],
                validation_notes = []\<rparr>
      else if c = ''score 0.6999''
      then Inr \<lparr>validation_score = Some 0.6999, additional_search_queries = [],
                validation_notes = []\<rparr>
      else Inl JSONDecodeError)"

definition sample_fallback_report :: ValidationReport where
  "sample_fallback_report =
     \<lparr>coverage_score = 0, rfp_validation_score = 0, extraction_accuracy = 0,
      gaps = [\<lparr>gap_requirement_id = ''ADDITIONAL_RESEARCH'',
               why = ''Validation score 0.00 below threshold 0.7 - additional research needed'',
               suggested_queries =
                 [''Acme case studies and success stories'',
                  ''Acme technical capabilities and certifications'',
                  ''Acme relevant project experience'',
                  ''Acme competitive advantages and differentiators'',
                  ''Acme industry expertise and partnerships'']\<rparr>],
      quality_notes = [''Simple validation score: 0.00''], rfp_validation_notes = [],
      is_sufficient = False\<rparr>"

lemma simple_fallback_validation_sample:
  "simple_fallback_validation sample_format_2f demo_findings = Inr sample_fallback_report"
  by (simp add: simple_fallback_validation_def demo_findings_def demo_profile_def
      new_ValidationReport_def in_unit_interval_def additional_research_gap_def
      sample_format_2f_def sample_fallback_report_def)

lemma validator_process_sample:
  "validator_process sample_format_2f sample_parse demo_findings (Content ''no JSON here'')
   = Inr sample_fallback_report"
  by (simp add: validator_process_def primary_validation_def sample_parse_def
      simple_fallback_validation_sample)

subsection \<open>The sufficiency threshold\<close>

text \<open>
  Claim C5. Every report that the validator returns, on the primary path or on the
  fallback path, has \<open>is_sufficient\<close> true exactly when its score is at least 0.7. A
  decoded score of exactly 0.7 gives a sufficient report, a score of 0.6999 one that is
  not sufficient.
\<close>

theorem is_sufficient_iff_threshold:
  "(validator_process fmt parse f response = Inr r
      \<longrightarrow> is_sufficient r = (coverage_score r \<ge> 0.7))
   \<and> (simple_fallback_validation fmt f = Inr r2
      \<longrightarrow> is_sufficient r2 = (coverage_score r2 \<ge> 0.7))
   \<and> (parse c1 = Inr d1 \<and> validation_score d1 = Some 0.7
      \<longrightarrow> (\<exists>r'. validator_process fmt parse f (Content c1) = Inr r'
                \<and> coverage_score r' = 0.7 \<and> is_sufficient r'))
   \<and> (parse c2 = Inr d2 \<and> validation_score d2 = Some 0.6999
      \<longrightarrow> (\<exists>r'. validator_process fmt parse f (Content c2) = Inr r'
                \<and> coverage_score r' = 0.6999 \<and> \<not> is_sufficient r'))"
proof (intro conjI impI)
  assume "validator_process fmt parse f response = Inr r"
  then show "is_sufficient r = (coverage_score r \<ge> 0.7)"
    by (rule validator_process_threshold)
next
  assume "simple_fallback_validation fmt f = Inr r2"
  then show "is_sufficient r2 = (coverage_score r2 \<ge> 0.7)"
    by (rule simple_fallback_validation_threshold)
next
  assume "parse c1 = Inr d1 \<and> validation_score d1 = Some 0.7"
  then show "\<exists>r'. validator_process fmt parse f (Content c1) = Inr r'
                \<and> coverage_score r' = 0.7 \<and> is_sufficient r'"
    using validator_process_score [of parse c1 d1 "0.7" fmt f] by auto
next
  assume "parse c2 = Inr d2 \<and> validation_score d2 = Some 0.6999"
  then show "\<exists>r'. validator_process fmt parse f (Content c2) = Inr r'
                \<and> coverage_score r' = 0.6999 \<and> \<not> is_sufficient r'"
    using validator_process_score [of parse c2 d2 "0.6999" fmt f] by auto
qed

theorem is_sufficient_iff_threshold_witness:
  "validator_process sample_format_2f sample_parse demo_findings (Content ''no JSON here'')
     = Inr sample_fallback_report
   \<and> simple_fallback_validation sample_format_2f demo_findings = Inr sample_fallback_report
   \<and> is_sufficient sample_fallback_report = (coverage_score sample_fallback_report \<ge> 0.7)
   \<and> sample_parse ''score 0.7''
       = Inr \<lparr>validation_score = Some 0.7, additional_search_queries = [],
                validation_notes = []\<rparr>
   \<and> (\<exists>r'. validator_process sample_format_2f sample_parse demo_findings
               (Content ''score 0.7'') = Inr r'
            \<and> coverage_score r' = 0.7 \<and> is_sufficient r')
   \<and> sample_parse ''score 0.6999''
       = Inr \<lparr>validation_score = Some 0.6999, additional_search_queries = [],
                validation_notes = []\<rparr>
   \<and> (\<exists>r'. validator_process sample_format_2f sample_parse demo_findings
               (Content ''score 0.6999'') = Inr r'
            \<and> coverage_score r' = 0.6999 \<and> \<not> is_sufficient r')"
  using is_sufficient_iff_threshold
    [of sample_format_2f sample_parse demo_findings "Content ''no JSON here''"
        sample_fallback_report sample_fallback_report
        "''score 0.7''"
        "\<lparr>validation_score = Some 0.7, additional_search_queries = [],
          validation_notes = []\<rparr>"
        "''score 0.6999''"
        "\<lparr>validation_score = Some 0.6999, additional_search_queries = [],
          validation_notes = []\<rparr>"]
    validator_process_sample simple_fallback_validation_sample
  by (simp add: sample_parse_def)


section \<open>Regular expressions (the subset of Python's re used by the fallback)\<close>

datatype cls = Space | Digit | Word | Range char char | Single char

datatype regex =
  Eps
  | Chr char
  | In "cls list"
  | NotIn "cls list"
  | Seq regex regex
  | Alt regex regex
  | Opt regex
  | Star regex
  | Group regex

definition Plus :: "regex \<Rightarrow> regex" where
  "Plus r = Seq r (Star r)"

fun lit :: "string \<Rightarrow> regex" where
  "lit [] = Eps"
| "lit [c] = Chr c"
| "lit (c # cs) = Seq (Chr c) (lit cs)"

fun seqs :: "regex list \<Rightarrow> regex" where
  "seqs [] = Eps"
| "seqs [r] = r"
| "seqs (r # rs) = Seq r (seqs rs)"

definition isdigit :: "char \<Rightarrow> bool" where
  "isdigit c = (c \<in> set ''0123456789'')"

definition isword :: "char \<Rightarrow> bool" where
  "isword c = (c \<in> set ''abcdefghijklmnopqrstuvwxyzABCDEFGHIJKLMNOPQRSTUVWXYZ0123456789_'')"

fun in_cls :: "char \<Rightarrow> cls \<Rightarrow> bool" where
  "in_cls c Space = isspace c"
| "in_cls c Digit = isdigit c"
| "in_cls c Word = isword c"
| "in_cls c (Range lo hi) = (of_char lo \<le> (of_char c :: nat) \<and> (of_char c :: nat) \<le> of_char hi)"
| "in_cls c (Single d) = (c = d)"

text \<open>Membership in a set \<open>[...]\<close>; under \<open>re.IGNORECASE\<close> either case of the character counts.\<close>

definition in_set :: "bool \<Rightarrow> char \<Rightarrow> cls list \<Rightarrow> bool" where
  "in_set ic c cl =
     (if list_ex (in_cls c) cl then True
      else if ic then
        (if list_ex (in_cls (lower_char c)) cl then True else list_ex (in_cls (upper_char c)) cl)
      else False)"

text \<open>
  The backtracking matcher. \<open>rmatch ic n r (s, g)\<close> lists, in the order in which Python's
  engine tries them, the ways in which \<open>r\<close> matches at the start of \<open>s\<close>: for each the
  remaining text and the first group (\<open>g\<close> when not set by this match). \<open>ic\<close> is
  \<open>re.IGNORECASE\<close>; \<open>n\<close> bounds the iterations of a repetition, and the length of \<open>s\<close>
  is always enough, as an iteration that consumes nothing is not repeated.
\<close>

fun rmatch :: "bool \<Rightarrow> nat \<Rightarrow> regex \<Rightarrow> string \<times> string option \<Rightarrow> (string \<times> string option) list" where
  "rmatch ic n Eps st = [st]"
| "rmatch ic n (Chr d) (s, g) =
     (case s of
        [] \<Rightarrow> []
      | c # cs \<Rightarrow> if (if ic then lower_char c = lower_char d else c = d) then [(cs, g)] else [])"
| "rmatch ic n (In cl) (s, g) =
     (case s of [] \<Rightarrow> [] | c # cs \<Rightarrow> if in_set ic c cl then [(cs, g)] else [])"
| "rmatch ic n (NotIn cl) (s, g) =
     (case s of [] \<Rightarrow> [] | c # cs \<Rightarrow> if in_set ic c cl then [] else [(cs, g)])"
| "rmatch ic n (Seq r1 r2) st = concat (map (rmatch ic n r2) (rmatch ic n r1 st))"
| "rmatch ic n (Alt r1 r2) st = rmatch ic n r1 st @ rmatch ic n r2 st"
| "rmatch ic n (Opt r) st = rmatch ic n r st @ [st]"
| "rmatch ic 0 (Star r) st = [st]"
| "rmatch ic (Suc n) (Star r) st =
     concat (map (\<lambda>st'. if length (fst st') < length (fst st) then rmatch ic n (Star r) st' else [])
               (rmatch ic (Suc n) r st))
     @ [st]"
| "rmatch ic n (Group r) (s, g) =
     map (\<lambda>(s', g'). (s', Some (take (length s - length s') s))) (rmatch ic n r (s, g))"


text \<open>
  A match object: the text of the whole match (\<open>group(0)\<close>), of the first group
  (\<open>group(1)\<close>), and the text after the match, where \<open>finditer\<close> goes on.
\<close>

record match =
  group0 :: string
  group1 :: "string option"
  after :: string

text \<open>\<open>re.search\<close>: the first position with a match, and there the first match in
  the order of backtracking (greedy repetitions, alternatives left to right).\<close>

fun search :: "bool \<Rightarrow> regex \<Rightarrow> string \<Rightarrow> match option" where
  "search ic r [] =
     (case rmatch ic 0 r ([], None) of
        [] \<Rightarrow> None
      | (s', g) # _ \<Rightarrow> Some \<lparr>group0 = [], group1 = g, after = s'\<rparr>)"
| "search ic r (c # cs) =
     (case rmatch ic (Suc (length cs)) r (c # cs, None) of
        [] \<Rightarrow> search ic r cs
      | (s', g) # _ \<Rightarrow>
          Some \<lparr>group0 = take (Suc (length cs) - length s') (c # cs), group1 = g, after = s'\<rparr>)"

text \<open>\<open>re.finditer\<close>: the successive matches, each search starting where the previous
  match ended. (None of the patterns below matches the empty string; after an empty
  match the scan moves on by one character.)\<close>

function finditer :: "bool \<Rightarrow> regex \<Rightarrow> string \<Rightarrow> match list" where
  "finditer ic r s =
     (case search ic r s of
        None \<Rightarrow> []
      | Some m \<Rightarrow>
          m # (if length (after m) < length s then finditer ic r (after m)
               else (case after m of [] \<Rightarrow> [] | _ # s' \<Rightarrow> if length s' < length s then finditer ic r s' else [])))"
  by pat_completeness auto
termination
  by (relation "measure (\<lambda>(ic, r, s). length s)") auto

declare finditer.simps [simp del]

fun has_group :: "regex \<Rightarrow> bool" where
  "has_group (Group r) = True"
| "has_group (Seq r1 r2) = (has_group r1 \<or> has_group r2)"
| "has_group (Alt r1 r2) = (has_group r1 \<or> has_group r2)"
| "has_group (Opt r) = has_group r"
| "has_group (Star r) = has_group r"
| "has_group r = False"


section \<open>Requirement extraction (app/agents/research_agent.py)\<close>
subsection \<open>The keyword tables\<close>

definition any_in :: "string list \<Rightarrow> string \<Rightarrow> bool" where
  "any_in words s = list_ex (\<lambda>word. str_in word s) words"

definition categorize_requirement :: "string \<Rightarrow> RequirementCategory" where
  "categorize_requirement txt =
     (let text_lower = str_lower txt in
      if any_in [''integration'', ''api'', ''connect'', ''interface'', ''teams'', ''sharepoint'',
                 ''salesforce''] text_lower then INTEGRATION
      else if any_in [''support'', ''helpdesk'', ''service'', ''maintenance'', ''training'']
                text_lower then SUPPORT
      else if any_in [''cost'', ''price'', ''roi'', ''budget'', ''savings'',
                      ''return on investment''] text_lower then ROI
      else if any_in [''license'', ''licensing'', ''permit'', ''agreement'', ''user accounts'']
                text_lower then LICENSING
      else if any_in [''timeline'', ''schedule'', ''deadline'', ''time'', ''duration'',
                      ''implementation''] text_lower then TIMELINE
      else if any_in [''presentation'', ''present'', ''demo'', ''demonstrate''] text_lower
        then PRESENTATION
      else if any_in [''evaluation'', ''assess'', ''scoring'', ''criteria'', ''judge''] text_lower
        then EVALUATION
      else if any_in [''implement'', ''deploy'', ''rollout'', ''go-live''] text_lower
        then IMPLEMENTATION
      else if any_in [''users'', ''accounts'', ''permissions'', ''access'', ''super user'']
                text_lower then USERS
      else if any_in [''capability'', ''feature'', ''function'', ''ai-driven'', ''web-based'']
                text_lower then CAPABILITIES
      else FEATURES)"

definition determine_priority :: "string \<Rightarrow> string" where
  "determine_priority txt =
     (let text_lower = str_lower txt in
      if any_in [''must'', ''shall'', ''required'', ''mandatory'', ''critical'', ''essential'']
           text_lower then ''critical''
      else if any_in [''should'', ''important'', ''key'', ''significant'', ''major''] text_lower
        then ''high''
      else if any_in [''nice to have'', ''optional'', ''preferred'', ''desired'', ''could'']
                text_lower then ''low''
      else ''medium'')"

subsection \<open>The patterns of the fallback\<close>

definition ws :: regex where \<comment> \<open>\<open>\s+\<close>\<close>
  "ws = Plus (In [Space])"

definition colon_ws :: regex where \<comment> \<open>\<open>[:\s]+\<close>\<close>
  "colon_ws = Plus (In [Single CHR '':'', Space])"

definition to_eol :: regex where \<comment> \<open>\<open>([^\n\r]+)\<close>\<close>
  "to_eol = Group (Plus (NotIn [Single (CHR 0x0A), Single (CHR 0x0D)]))"

definition to_dot :: regex where \<comment> \<open>\<open>([^.]+)\<close>\<close>
  "to_dot = Group (Plus (NotIn [Single CHR ''.'']))"

definition sentence :: regex where \<comment> \<open>\<open>([^.]+\.)\<close>\<close>
  "sentence = Group (Seq (Plus (NotIn [Single CHR ''.''])) (Chr CHR ''.''))"

definition digit :: regex where \<comment> \<open>\<open>\d\<close>\<close>
  "digit = In [Digit]"

definition day :: regex where \<comment> \<open>\<open>\d{1,2}(?:st|nd|rd|th)?\<close>\<close>
  "day = seqs [digit, Opt digit,
               Opt (Alt (lit ''st'') (Alt (lit ''nd'') (Alt (lit ''rd'') (lit ''th''))))]"

definition year :: regex where \<comment> \<open>\<open>\d{4}\<close>\<close>
  "year = seqs [digit, digit, digit, digit]"

definition cap_word :: regex where \<comment> \<open>\<open>[A-Z][a-z]+\<close>\<close>
  "cap_word = Seq (In [Range CHR ''A'' CHR ''Z'']) (Plus (In [Range CHR ''a'' CHR ''z'']))"

definition cap_words :: regex where \<comment> \<open>\<open>([A-Z][a-z]+(?:\s+[A-Z][a-z]+)*)\<close>\<close>
  "cap_words = Group (Seq cap_word (Star (Seq ws cap_word)))"

definition title_pattern :: regex where
  "title_pattern = seqs [lit ''title'', colon_ws, to_eol]"

definition deadline_patterns :: "regex list" where
  "deadline_patterns =
     [seqs [lit ''deadline'', colon_ws, to_eol],
      seqs [lit ''due'', colon_ws, to_eol],
      seqs [lit ''submission'', colon_ws, to_eol],
      Group (seqs [day, ws, Plus (In [Word]), ws, year]),
      Group (seqs [Plus (In [Word]), ws, day, Opt (Chr CHR '',''), ws, year])]"

definition org_patterns :: "regex list" where
  "org_patterns =
     [seqs [Group (seqs [cap_word, ws, In [Range CHR ''A'' CHR ''Z''],
                         In [Range CHR ''A'' CHR ''Z'']]),
            ws, lit ''has'', ws, lit ''been''],
      seqs [cap_words, ws, lit ''is'', ws, lit ''seeking''],
      seqs [cap_words, ws, lit ''requires''],
      seqs [cap_words, ws, lit ''invit''],
      seqs [lit ''Kind'', ws, lit ''Regards'', Star (In [Space]), Chr (CHR 0x0A),
            Star (In [Space]), cap_words]]"

definition purpose_patterns :: "regex list" where
  "purpose_patterns =
     [seqs [lit ''Purpose'', ws, lit ''of'', ws, lit ''this'', ws, lit ''RFP'', colon_ws, sentence],
      seqs [lit ''Background'', colon_ws, sentence],
      seqs [lit ''Our'', ws, lit ''goal'', ws, lit ''is'', ws, lit ''to'', ws, sentence],
      seqs [lit ''We'', ws, lit ''are'', ws, lit ''seeking'', ws, sentence],
      seqs [lit ''This'', ws, lit ''RFP'', ws, lit ''is'', ws, lit ''for'', ws, sentence]]"

definition req_patterns :: "regex list" where
  "req_patterns =
     [seqs [lit ''REQ-'', Plus digit, colon_ws, to_dot],
      seqs [lit ''requirement'', Opt (In [Single CHR ''s'']), ws, Plus digit, colon_ws, to_dot],
      seqs [lit ''must'', ws,
            Opt (seqs [lit ''be'', ws, lit ''able'', ws, lit ''to'', ws]), to_dot],
      seqs [lit ''shall'', ws, to_dot],
      seqs [lit ''should'', ws, to_dot],
      seqs [lit ''the'', ws, lit ''solution'', ws, lit ''must'', ws, to_dot],
      seqs [lit ''the'', ws, lit ''system'', ws, lit ''shall'', ws, to_dot],
      seqs [lit ''we'', ws, lit ''require'', colon_ws, to_dot],
      seqs [lit ''capabilities'', colon_ws, to_dot],
      seqs [lit ''integration'', ws, lit ''with'', ws, to_dot],
      seqs [Plus digit, ws, lit ''super'', ws, lit ''user'', ws, lit ''accounts''],
      seqs [Plus digit, ws, lit ''additional'', ws, lit ''users''],
      seqs [lit ''AI-driven'', ws, to_dot],
      seqs [lit ''web-based'', ws, to_dot]]"

subsection \<open>The fallback extraction\<close>

text \<open>
  \<open>for pattern in patterns: match = re.search(...); if match: x = match.group(1).strip();
  break\<close>. In each of the patterns above the group lies outside every optional part, so
  it is set whenever the pattern matches.
\<close>

fun first_group :: "bool \<Rightarrow> regex list \<Rightarrow> string \<Rightarrow> string \<Rightarrow> string" where
  "first_group ic [] txt dflt = dflt"
| "first_group ic (pattern # patterns) txt dflt =
     (case search ic pattern txt of
        Some m \<Rightarrow> str_strip (case group1 m of Some g \<Rightarrow> g | None \<Rightarrow> [])
      | None \<Rightarrow> first_group ic patterns txt dflt)"

definition digit_char :: "nat \<Rightarrow> char" where
  "digit_char n = ''0123456789'' ! n"

fun decimal :: "nat \<Rightarrow> string" where
  "decimal n = (if n < 10 then [digit_char n] else decimal (n div 10) @ [digit_char (n mod 10)])"

declare decimal.simps [simp del]

definition format_03d :: "nat \<Rightarrow> string" where
  "format_03d n = replicate (3 - length (decimal n)) CHR ''0'' @ decimal n"

definition new_requirement :: "nat \<Rightarrow> string \<Rightarrow> string \<Rightarrow> string \<Rightarrow> Requirement" where
  "new_requirement req_id req_text impact section =
     \<lparr>Requirement.id = ''REQ-'' @ format_03d req_id, text = req_text,
      category = categorize_requirement req_text, priority = determine_priority req_text,
      business_impact = impact, evaluation_weight = 0, source_section = section\<rparr>"

fun split_on :: "char \<Rightarrow> string \<Rightarrow> string \<Rightarrow> string list" where
  "split_on sep cur [] = [cur]"
| "split_on sep cur (c # cs) =
     (if c = sep then cur # split_on sep [] cs else split_on sep (cur @ [c]) cs)"

text \<open>The lines of the second completion reply that look like requirements.\<close>

fun llm_lines_loop :: "string list \<Rightarrow> nat \<Rightarrow> Requirement list \<Rightarrow> Requirement list" where
  "llm_lines_loop [] req_id reqs = reqs"
| "llm_lines_loop (raw # req_lines) req_id reqs =
     (let line = str_strip raw in
      if line \<noteq> [] \<and> length line > 20
         \<and> any_in [''requirement'', ''must'', ''should'', ''need'', ''require''] (str_lower line)
      then
        (let req_text = (if CHR '':'' \<in> set line
                         then str_strip (tl (dropWhile (\<lambda>c. c \<noteq> CHR '':'') line))
                         else line)
         in if length req_text > 15 \<and> length req_text < 300
            then (if req_id + 1 > 20
                  then reqs @ [new_requirement req_id req_text
                                 ''Extracted from LLM analysis'' ''LLM-enhanced extraction'']
                  else llm_lines_loop req_lines (req_id + 1)
                         (reqs @ [new_requirement req_id req_text
                                    ''Extracted from LLM analysis'' ''LLM-enhanced extraction'']))
            else llm_lines_loop req_lines req_id reqs)
      else llm_lines_loop req_lines req_id reqs)"

text \<open>The inner loop over the matches of one pattern; it returns the counter as well.\<close>

fun match_loop ::
  "bool \<Rightarrow> match list \<Rightarrow> nat \<Rightarrow> Requirement list \<Rightarrow> Requirement list \<times> nat" where
  "match_loop groups [] req_id reqs = (reqs, req_id)"
| "match_loop groups (m # ms) req_id reqs =
     (let req_text = str_strip (if groups then (case group1 m of Some g \<Rightarrow> g | None \<Rightarrow> [])
                                else group0 m)
      in if length req_text > 10 \<and> length req_text < 300
         then (if \<not> list_ex (\<lambda>existing. str_in (str_lower req_text) (str_lower (text existing)))
                      reqs
               then (if req_id + 1 > 25
                     then (reqs @ [new_requirement req_id req_text
                                     ''Extracted from regex patterns'' ''Regex pattern extraction''],
                           req_id + 1)
                     else match_loop groups ms (req_id + 1)
                            (reqs @ [new_requirement req_id req_text
                                ''Extracted from regex patterns'' ''Regex pattern extraction'']))
               else match_loop groups ms req_id reqs)
         else match_loop groups ms req_id reqs)"

fun pattern_loop :: "regex list \<Rightarrow> string \<Rightarrow> nat \<Rightarrow> Requirement list \<Rightarrow> Requirement list" where
  "pattern_loop [] txt req_id reqs = reqs"
| "pattern_loop (pattern # patterns) txt req_id reqs =
     (case match_loop (has_group pattern) (finditer True pattern txt) req_id reqs of
        (reqs', req_id') \<Rightarrow>
          if req_id' > 25 then reqs' else pattern_loop patterns txt req_id' reqs')"

text \<open>
  \<open>_fallback_extraction\<close>. Its arguments are the stem of the file name, the document
  text, and the replies of the completion service to its two calls (the second call is
  made only when the first reply, stripped, is not empty). It raises nothing.
\<close>

definition fallback_extraction ::
  "string \<Rightarrow> string \<Rightarrow> llm_reply \<Rightarrow> llm_reply \<Rightarrow> RFPMeta \<times> Requirement list" where
  "fallback_extraction stem txt analysis_reply requirements_reply =
     (let llm_analysis = (case analysis_reply of Content c \<Rightarrow> str_strip c | Raises e \<Rightarrow> []);
          title0 = (if str_in ''title'' (str_lower txt)
                    then first_group True [title_pattern] txt stem else stem);
          deadline = first_group True deadline_patterns txt ''2025-12-31T23:59:59'';
          organization0 = first_group False org_patterns txt [];
          purpose0 = first_group True purpose_patterns txt [];
          meta = \<lparr>title = title0, version = ''1.0'', deadline_iso = deadline,
                  purpose = purpose0, organization = organization0,
                  project_description = [], budget_indication = [], contract_duration = [],
                  presentation_details = None, timeline = [], evaluation_criteria = [],
                  contact_info = [], submission_requirements = [], special_conditions = []\<rparr>;
          requirements0 =
            (if llm_analysis \<noteq> [] then
               (case requirements_reply of
                  Content c \<Rightarrow> llm_lines_loop (split_on (CHR 0x0A) [] (str_strip c)) 1 []
                | Raises e \<Rightarrow> [])
             else []);
          requirements1 =
            (if length requirements0 < 3
             then pattern_loop req_patterns txt (length requirements0 + 1) requirements0
             else requirements0)
      in (meta, requirements1))"

text \<open>
  \<open>_extract_rfp_requirements\<close>. The document text and file stem come from the document
  processor. \<open>decode\<close> stands for the steps inside the \<open>try\<close> block after the empty-reply
  check (removing a code fence, \<open>json.loads\<close>, the check for the two top-level keys, and
  building the Pydantic models); \<open>None\<close> is any failure among them.
\<close>

definition extract_rfp_requirements ::
  "(string \<Rightarrow> (RFPMeta \<times> Requirement list) option) \<Rightarrow> string \<Rightarrow> string
    \<Rightarrow> llm_reply \<Rightarrow> llm_reply \<Rightarrow> llm_reply \<Rightarrow> error + RFPMeta \<times> Requirement list" where
  "extract_rfp_requirements decode stem full_text response analysis_reply requirements_reply =
     (case response of
        Raises e \<Rightarrow> Inl (ServiceError e)
      | Content c \<Rightarrow>
          (let response_text = str_strip c in
           if response_text = []
           then Inr (fallback_extraction stem full_text analysis_reply requirements_reply)
           else (case decode response_text of
                   Some result \<Rightarrow> Inr result
                 | None \<Rightarrow>
                     Inr (fallback_extraction stem full_text analysis_reply
                            requirements_reply))))"

subsection \<open>The sample document\<close>

definition sample_rfp :: string where
  "sample_rfp = ''The system shall support 500 users. Deadline: 2025-06-01.''"

definition sample_meta :: RFPMeta where
  "sample_meta = \<lparr>title = ''rfp'', version = ''1.0'', deadline_iso = ''2025-06-01.'',
     purpose = [], organization = [], project_description = [],
     budget_indication = [], contract_duration = [],
     presentation_details = None, timeline = [], evaluation_criteria = [],
     contact_info = [], submission_requirements = [],
     special_conditions = []\<rparr>"

definition sample_requirement :: Requirement where
  "sample_requirement = \<lparr>Requirement.id = ''REQ-001'', text = ''support 500 users'',
      category = SUPPORT, priority = ''medium'',
      business_impact = ''Extracted from regex patterns'',
      evaluation_weight = 0,
      source_section = ''Regex pattern extraction''\<rparr>"

lemma sample_has_no_title: "str_in ''title'' (str_lower sample_rfp) = False"
  by code_simp

lemma sample_deadline:
  "first_group True deadline_patterns sample_rfp ''2025-12-31T23:59:59'' = ''2025-06-01.''"
  by code_simp

lemma sample_organization: "first_group False org_patterns sample_rfp [] = []"
  by code_simp

lemma sample_purpose: "first_group True purpose_patterns sample_rfp [] = []"
  by code_simp

lemma sample_requirements:
  "pattern_loop req_patterns sample_rfp (Suc 0) [] = [sample_requirement]"
  by code_simp

lemma fallback_extraction_sample:
  "fallback_extraction stem sample_rfp (Raises e) requirements_reply
   = (sample_meta\<lparr>title := stem\<rparr>, [sample_requirement])"
  by (simp add: fallback_extraction_def sample_has_no_title sample_deadline
      sample_organization sample_purpose sample_requirements sample_meta_def)

subsection \<open>A fault of the completion service during extraction\<close>

text \<open>
  Claim C4 says that a fault of the completion service during requirement extraction is
  recovered by the fallback extraction. In \<open>_extract_rfp_requirements\<close> the call of the
  service stands before the \<open>try\<close> block: its fault leaves the function, and the result
  is not the result of the fallback.
\<close>

theorem extraction_service_fault_propagates:
  "extract_rfp_requirements decode stem full_text (Raises e) analysis_reply requirements_reply
     = Inl (ServiceError e)
   \<and> extract_rfp_requirements decode stem full_text (Raises e) analysis_reply
       requirements_reply
     \<noteq> Inr (fallback_extraction stem full_text analysis_reply requirements_reply)"
  by (simp add: extract_rfp_requirements_def)

subsection \<open>The fallback extraction on the sample document\<close>

text \<open>
  Claim C8, as stated: on the sample document, with the completion service unavailable,
  the fallback gives the deadline \<open>2025-06-01\<close> and a requirement of category \<open>USERS\<close>
  and priority \<open>critical\<close>. It gives none of the three: the deadline it returns ends
  with the full stop of the sentence, and its one requirement has another category and
  another priority.
\<close>

theorem fallback_sample_counterexample:
  "deadline_iso (fst (fallback_extraction ''rfp'' sample_rfp (Raises ''service unavailable'')
                        (Raises ''service unavailable''))) \<noteq> ''2025-06-01''
   \<and> USERS \<notin> set (map category
         (snd (fallback_extraction ''rfp'' sample_rfp (Raises ''service unavailable'')
                 (Raises ''service unavailable''))))
   \<and> ''critical'' \<notin> set (map priority
         (snd (fallback_extraction ''rfp'' sample_rfp (Raises ''service unavailable'')
                 (Raises ''service unavailable''))))"
  by (simp add: fallback_extraction_sample sample_meta_def sample_requirement_def)

text \<open>
  Claim C8, amended. On the sample document, with the completion service unavailable,
  the fallback gives exactly one requirement, \<open>REQ-001\<close> with the text
  \<open>support 500 users\<close> (which contains \<open>500 users\<close>), of category \<open>SUPPORT\<close> (the
  keyword \<open>support\<close> is looked up before \<open>users\<close>) and of priority \<open>medium\<close> (the
  captured text does not contain \<open>shall\<close>).
\<close>

theorem fallback_sample_result:
  "sample_rfp = ''The system shall support 500 users. Deadline: 2025-06-01.''
   \<and> snd (fallback_extraction stem sample_rfp (Raises e) requirements_reply)
       = [\<lparr>Requirement.id = ''REQ-001'', text = ''support 500 users'', category = SUPPORT,
           priority = ''medium'', business_impact = ''Extracted from regex patterns'',
           evaluation_weight = 0, source_section = ''Regex pattern extraction''\<rparr>]
   \<and> str_in ''500 users'' ''support 500 users''"
proof -
  have a: "sample_rfp = ''The system shall support 500 users. Deadline: 2025-06-01.''"
    by (simp add: sample_rfp_def)
  have c: "snd (fallback_extraction stem sample_rfp (Raises e) requirements_reply)
       = [\<lparr>Requirement.id = ''REQ-001'', text = ''support 500 users'', category = SUPPORT,
           priority = ''medium'', business_impact = ''Extracted from regex patterns'',
           evaluation_weight = 0, source_section = ''Regex pattern extraction''\<rparr>]"
    by (simp add: fallback_extraction_sample sample_requirement_def)
  have d: "str_in ''500 users'' ''support 500 users''"
    by simp
  show ?thesis by (intro conjI a c d)
qed

end
